theory Spec2Isabelle
  imports Main "HOL-Library.Word"
begin

section \<open>Commands and subscribers (command_processor.h)\<close>

text \<open>
  The three string constants of the header. \<open>BULK\<close> prefixes every rendered batch, the
  other two are the block markers.
\<close>

definition BULK :: string where
  "BULK = ''bulk: ''"

definition START_BLOCK :: string where
  "START_BLOCK = ''{''"

definition END_BLOCK :: string where
  "END_BLOCK = ''}''"

text \<open>
  \<open>struct Command\<close>: the text of the line and the time it was read. The time point is
  kept as the integer count of clock ticks since the epoch. (The field \<open>text\<close> of the
  source is called \<open>cmd_text\<close> here, \<open>text\<close> being reserved.)
\<close>

record Command =
  cmd_text :: string
  timeStamp :: int

text \<open>
  The two subclasses of \<open>Output\<close>. Each has the single field \<open>m_commands\<close>, the last
  snapshot it was handed by \<open>update\<close>.
\<close>

datatype Output = ConsoleOutput "Command list" | ReportWriter "Command list"

fun snapshot :: "Output \<Rightarrow> Command list" where
  "snapshot (ConsoleOutput cs) = cs"
| "snapshot (ReportWriter cs) = cs"

text \<open>\<open>update\<close> of both subclasses: \<open>m_commands = commands\<close>.\<close>

fun update :: "Command list \<Rightarrow> Output \<Rightarrow> Output" where
  "update commands (ConsoleOutput _) = ConsoleOutput commands"
| "update commands (ReportWriter _) = ReportWriter commands"

text \<open>
  \<open>Output::Join\<close>: \<open>std::accumulate\<close> from the empty string; the separator is put in
  front of a text only when the string built so far is not empty.
\<close>

definition Join :: "Command list \<Rightarrow> string" where
  "Join v = foldl (\<lambda>s com. if s = [] then s @ cmd_text com
                           else (s @ '', '') @ cmd_text com) [] v"

text \<open>
  \<open>duration_cast<seconds>\<close> of a time stamp: the ticks divided by the ticks of one
  second, rounded towards zero as C++ divides. The clock counts nanoseconds (the
  period of \<open>system_clock\<close> in libstdc++).
\<close>

definition ticks_per_second :: int where
  "ticks_per_second = 1000000000"

definition seconds :: "int \<Rightarrow> int" where
  "seconds t = (if 0 \<le> t then t div ticks_per_second else - ((- t) div ticks_per_second))"

text \<open>
  What a subscriber's \<open>ProcessCommand\<close> does to the outside: \<open>ConsoleOutput\<close> writes one
  line to \<open>std::cout\<close>, \<open>ReportWriter\<close> creates a file. The file's name is
  \<open>bulk<seconds>_<thread id>.log\<close>, the seconds being those of the time stamp of
  command 0; \<open>FileOut\<close> carries these seconds and the text written (the id of the
  thread is chosen by the platform for every thread and is not part of the model).
  \<open>GetFilename\<close> reads \<open>m_commands[0]\<close> unchecked: on an empty snapshot that read is
  out of range, and the run ends there with the error \<open>OutOfRange\<close>.
\<close>

datatype effect = StdOut string | FileOut int string

datatype error = OutOfRange

definition GetFilename :: "Command list \<Rightarrow> error + int" where
  "GetFilename m_cmds =
     (case m_cmds of [] \<Rightarrow> Inl OutOfRange | c # _ \<Rightarrow> Inr (seconds (timeStamp c)))"

fun Output_ProcessCommand :: "Output \<Rightarrow> error + effect" where
  "Output_ProcessCommand (ConsoleOutput cs) = Inr (StdOut (BULK @ Join cs))"
| "Output_ProcessCommand (ReportWriter cs) =
     (case GetFilename cs of
        Inl e \<Rightarrow> Inl e
      | Inr name \<Rightarrow> Inr (FileOut name (BULK @ Join cs)))"

section \<open>The world outside the processor\<close>

text \<open>
  Subscriber objects live on the heap and are owned by \<open>shared_ptr\<close>s outside the
  processor, which only holds \<open>weak_ptr\<close>s. A \<open>handle\<close> is the identity of one object;
  \<open>heap w h = None\<close> says that the object is gone (its last owner released it), which is
  when \<open>weak_ptr::lock\<close> gives null.

  The trace records, oldest first, what the processor did to the subscribers:
  \<^item> \<open>Notified hs cs\<close>: one run of \<open>notify\<close>, which called \<open>update cs\<close> on the objects
    \<open>hs\<close>, in this order;
  \<^item> \<open>Dumped cs ts\<close>: one fan-out of \<open>DumpBatch\<close> with the pending batch \<open>cs\<close>: one
    thread per entry of \<open>ts\<close>, running \<open>ProcessCommand\<close> of that object, found in that
    state; all threads ran to their end and were joined. The threads touch no state
    of the model (each reads its own snapshot only), so their interleaving does not
    show.
\<close>

type_synonym handle = nat

datatype event =
    Notified "handle list" "Command list"
  | Dumped "Command list" "(handle \<times> Output) list"

record world =
  heap :: "handle \<Rightarrow> Output option"
  trace :: "event list"

section \<open>BatchCommandProcessor\<close>

record BatchCommandProcessor =
  m_bulkSize :: nat
  m_blockForced :: bool
  m_commands :: "Command list"
  m_subscribers :: "handle list"

text \<open>The constructor: the bulk size is given, the other members have their defaults.\<close>

definition BatchCommandProcessor_init :: "nat \<Rightarrow> BatchCommandProcessor" where
  "BatchCommandProcessor_init bulkSize =
     \<lparr>m_bulkSize = bulkSize, m_blockForced = False, m_commands = [], m_subscribers = []\<rparr>"

text \<open>
  \<open>subscribe\<close> and \<open>unSubscribe\<close> take a \<open>shared_ptr\<close>, which may be null (\<open>None\<close>).
  \<open>unSubscribe\<close> erases the entries whose \<open>lock()\<close> is the given object; an entry whose
  object is gone locks to null and stays.
\<close>

fun subscribe :: "handle option \<Rightarrow> BatchCommandProcessor \<Rightarrow> BatchCommandProcessor" where
  "subscribe None p = p"
| "subscribe (Some h) p = p\<lparr>m_subscribers := m_subscribers p @ [h]\<rparr>"

definition lock :: "world \<Rightarrow> handle \<Rightarrow> handle option" where
  "lock w s = (case heap w s of None \<Rightarrow> None | Some _ \<Rightarrow> Some s)"

fun unSubscribe ::
  "handle option \<Rightarrow> BatchCommandProcessor \<Rightarrow> world \<Rightarrow> BatchCommandProcessor" where
  "unSubscribe None p w = p"
| "unSubscribe (Some h) p w =
     p\<lparr>m_subscribers := filter (\<lambda>subscriber. lock w subscriber \<noteq> Some h) (m_subscribers p)\<rparr>"

text \<open>
  The loop of \<open>notify\<close>: every subscriber that still locks gets \<open>update(m_commands)\<close>.
  The function returns the heap after the loop and the objects it updated.
\<close>

fun notify_loop ::
  "Command list \<Rightarrow> handle list \<Rightarrow> (handle \<Rightarrow> Output option)
     \<Rightarrow> (handle \<Rightarrow> Output option) \<times> handle list" where
  "notify_loop cs [] hp = (hp, [])"
| "notify_loop cs (s # ss) hp =
     (case hp s of
        None \<Rightarrow> notify_loop cs ss hp
      | Some ob \<Rightarrow>
          (case notify_loop cs ss (hp(s \<mapsto> update cs ob)) of
             (hp', hs) \<Rightarrow> (hp', s # hs)))"

definition notify :: "BatchCommandProcessor \<Rightarrow> world \<Rightarrow> world" where
  "notify p w =
     (case notify_loop (m_commands p) (m_subscribers p) (heap w) of
        (hp', hs) \<Rightarrow> \<lparr>heap = hp', trace = trace w @ [Notified hs (m_commands p)]\<rparr>)"

definition ClearBatch ::
  "BatchCommandProcessor \<Rightarrow> world \<Rightarrow> BatchCommandProcessor \<times> world" where
  "ClearBatch p w = (let p' = p\<lparr>m_commands := []\<rparr> in (p', notify p' w))"

text \<open>
  The first loop of \<open>DumpBatch\<close> starts one thread for every subscriber that still
  locks; each thread runs \<open>ProcessCommand\<close> of its subscriber. The second loop joins
  them all: \<open>join_all\<close> gives what the threads did, or the error of a thread that read
  out of range. After such a read the behaviour of the program is undefined: the run
  ends with the error, and \<open>DumpBatch\<close> neither clears nor notifies.
\<close>

fun threads :: "(handle \<Rightarrow> Output option) \<Rightarrow> handle list \<Rightarrow> (handle \<times> Output) list" where
  "threads hp [] = []"
| "threads hp (s # ss) =
     (case hp s of
        None \<Rightarrow> threads hp ss
      | Some ob \<Rightarrow> (s, ob) # threads hp ss)"

fun join_all :: "(handle \<times> Output) list \<Rightarrow> error + effect list" where
  "join_all [] = Inr []"
| "join_all ((s, ob) # ts) =
     (case Output_ProcessCommand ob of
        Inl e \<Rightarrow> Inl e
      | Inr x \<Rightarrow> (case join_all ts of Inl e \<Rightarrow> Inl e | Inr xs \<Rightarrow> Inr (x # xs)))"

definition DumpBatch ::
  "BatchCommandProcessor \<Rightarrow> world \<Rightarrow> error + BatchCommandProcessor \<times> world" where
  "DumpBatch p w =
     (if m_commands p \<noteq> [] then
        (let ts = threads (heap w) (m_subscribers p)
         in case join_all ts of
              Inl e \<Rightarrow> Inl e
            | Inr _ \<Rightarrow>
                Inr (ClearBatch p (w\<lparr>trace := trace w @ [Dumped (m_commands p) ts]\<rparr>)))
      else Inr (ClearBatch p w))"

definition StartBlock ::
  "BatchCommandProcessor \<Rightarrow> world \<Rightarrow> error + BatchCommandProcessor \<times> world" where
  "StartBlock p w = DumpBatch (p\<lparr>m_blockForced := True\<rparr>) w"

definition FinishBlock ::
  "BatchCommandProcessor \<Rightarrow> world \<Rightarrow> error + BatchCommandProcessor \<times> world" where
  "FinishBlock p w = DumpBatch (p\<lparr>m_blockForced := False\<rparr>) w"

definition ProcessCommand ::
  "Command \<Rightarrow> BatchCommandProcessor \<Rightarrow> world
     \<Rightarrow> error + BatchCommandProcessor \<times> world" where
  "ProcessCommand command p w =
     (let p1 = p\<lparr>m_commands := m_commands p @ [command]\<rparr>;
          w1 = notify p1 w
      in if \<not> m_blockForced p1 \<and> m_bulkSize p1 \<le> length (m_commands p1)
         then DumpBatch p1 w1
         else Inr (p1, w1))"

text \<open>
  The destructor: a last \<open>DumpBatch\<close> unless a block is open, then the loop that
  unsubscribes every subscriber that still locks. That loop walks the very vector
  \<open>unSubscribe\<close> erases from, with the end it read before the first step: it visits
  the places \<open>0, 1, ...\<close> up to the length the registry had at the start, and finds at
  place \<open>i\<close> what the erasures so far have moved there. A place beyond the end of the
  shortened registry holds a handle that was moved away (null) or one that has just
  been unsubscribed; neither changes the registry. So entries are skipped: of two
  live subscribers the second stays registered. The loop calls nothing of a
  subscriber, and the vector is destroyed with the object right after it.
\<close>

definition release_all :: "BatchCommandProcessor \<Rightarrow> world \<Rightarrow> BatchCommandProcessor" where
  "release_all p w =
     foldl (\<lambda>q i. if i < length (m_subscribers q)
                   then unSubscribe (lock w (m_subscribers q ! i)) q w
                   else q)
       p [0 ..< length (m_subscribers p)]"

definition BatchCommandProcessor_destroy ::
  "BatchCommandProcessor \<Rightarrow> world \<Rightarrow> error + BatchCommandProcessor \<times> world" where
  "BatchCommandProcessor_destroy p w =
     (case (if \<not> m_blockForced p then DumpBatch p w else Inr (p, w)) of
        Inl e \<Rightarrow> Inl e
      | Inr (p1, w1) \<Rightarrow> Inr (release_all p1 w1, w1))"

section \<open>BatchConsoleInput\<close>

text \<open>
  The session: the depth of open blocks, the processor it owns (a \<open>unique_ptr\<close>, null
  being \<open>None\<close>) and the subscribers it owns. The depth is an \<open>int\<close> of 32 bits: the
  model keeps its bit pattern, \<open>sint\<close> reads it, and it wraps around where the
  source's signed counter overflows.
\<close>

record BatchConsoleInput =
  m_blockDepth :: "32 word"
  m_commandProcessor :: "BatchCommandProcessor option"
  m_output :: "handle list"

text \<open>
  The constructor makes the processor, then a \<open>ReportWriter\<close> and a \<open>ConsoleOutput\<close>
  (the objects 0 and 1 of the session's world, both with an empty snapshot), and
  subscribes them in this order.
\<close>

definition BatchConsoleInput_init :: "nat \<Rightarrow> BatchConsoleInput \<times> world" where
  "BatchConsoleInput_init bulkSize =
     (let m_out = [0, 1]
      in (\<lparr>m_blockDepth = 0,
           m_commandProcessor =
             Some (foldl (\<lambda>p ob. subscribe (Some ob) p)
                     (BatchCommandProcessor_init bulkSize) m_out),
           m_output = m_out\<rparr>,
          \<lparr>heap = [0 \<mapsto> ReportWriter [], 1 \<mapsto> ConsoleOutput []], trace = []\<rparr>))"

text \<open>
  \<open>BatchConsoleInput::ProcessCommand\<close>. \<open>m_blockDepth++ == 0\<close> compares the depth
  before the increment, \<open>--m_blockDepth == 0\<close> the depth after the decrement.
\<close>

definition BatchConsoleInput_ProcessCommand ::
  "Command \<Rightarrow> BatchConsoleInput \<Rightarrow> world \<Rightarrow> error + BatchConsoleInput \<times> world" where
  "BatchConsoleInput_ProcessCommand command h w =
     (case m_commandProcessor h of
        None \<Rightarrow> Inr (h, w)
      | Some p \<Rightarrow>
          if cmd_text command = START_BLOCK then
            (let d = m_blockDepth h; h1 = h\<lparr>m_blockDepth := d + 1\<rparr>
             in if d = 0
                then (case StartBlock p w of
                        Inl e \<Rightarrow> Inl e
                      | Inr (p', w') \<Rightarrow> Inr (h1\<lparr>m_commandProcessor := Some p'\<rparr>, w'))
                else Inr (h1, w))
          else if cmd_text command = END_BLOCK then
            (let d = m_blockDepth h - 1; h1 = h\<lparr>m_blockDepth := d\<rparr>
             in if d = 0
                then (case FinishBlock p w of
                        Inl e \<Rightarrow> Inl e
                      | Inr (p', w') \<Rightarrow> Inr (h1\<lparr>m_commandProcessor := Some p'\<rparr>, w'))
                else Inr (h1, w))
          else (case ProcessCommand command p w of
                  Inl e \<Rightarrow> Inl e
                | Inr (p', w') \<Rightarrow> Inr (h\<lparr>m_commandProcessor := Some p'\<rparr>, w')))"

text \<open>The loop of \<open>async::receive\<close> over the lines of one chunk, already stamped.\<close>

fun receive_loop ::
  "Command list \<Rightarrow> BatchConsoleInput \<Rightarrow> world \<Rightarrow> error + BatchConsoleInput \<times> world" where
  "receive_loop [] h w = Inr (h, w)"
| "receive_loop (c # cs) h w =
     (case BatchConsoleInput_ProcessCommand c h w of
        Inl e \<Rightarrow> Inl e
      | Inr (h', w') \<Rightarrow> receive_loop cs h' w')"

text \<open>
  \<open>async::disconnect\<close> deletes the session. The class has no destructor of its own, so
  its members go in the reverse order of their declaration: first \<open>m_output\<close>, whose
  \<open>shared_ptr\<close>s are the only owners of the two subscribers, then the processor, whose
  destructor runs with both subscribers gone.
\<close>

definition BatchConsoleInput_destroy :: "BatchConsoleInput \<Rightarrow> world \<Rightarrow> error + world" where
  "BatchConsoleInput_destroy h w =
     (let w1 = w\<lparr>heap := foldl (\<lambda>hp ob. hp(ob := None)) (heap w) (m_output h)\<rparr>
      in case m_commandProcessor h of
           None \<Rightarrow> Inr w1
         | Some p \<Rightarrow>
             (case BatchCommandProcessor_destroy p w1 of
                Inl e \<Rightarrow> Inl e
              | Inr (p', w') \<Rightarrow> Inr w'))"

section \<open>Reading the trace\<close>

text \<open>A subscriber is live in a world when its object is still there.\<close>

definition alive :: "world \<Rightarrow> handle \<Rightarrow> bool" where
  "alive w s = (heap w s \<noteq> None)"

text \<open>The batches flushed, in flush order: one per fan-out.\<close>

fun flushed :: "event list \<Rightarrow> Command list list" where
  "flushed [] = []"
| "flushed (Dumped cs ts # es) = cs # flushed es"
| "flushed (Notified hs cs # es) = flushed es"

text \<open>
  What a subscriber was given: the snapshots on which its flush action ran, oldest
  first, one for every thread of a fan-out that ran this subscriber.
\<close>

fun delivered :: "handle \<Rightarrow> event list \<Rightarrow> Command list list" where
  "delivered s [] = []"
| "delivered s (Dumped cs ts # es) =
     map (\<lambda>t. snapshot (snd t)) (filter (\<lambda>t. fst t = s) ts) @ delivered s es"
| "delivered s (Notified hs cs # es) = delivered s es"

text \<open>
  The threads of a fan-out hold a batch when each finds its subscriber with exactly
  that batch as its snapshot. A fan-out is in range when no thread reads element 0 of
  an empty snapshot.
\<close>

definition holding :: "Command list \<Rightarrow> (handle \<times> Output) list \<Rightarrow> bool" where
  "holding cs ts = list_all (\<lambda>(s, ob). snapshot ob = cs) ts"

fun in_range :: "event \<Rightarrow> bool" where
  "in_range (Dumped cs ts) =
     list_all (\<lambda>(s, ob). snapshot ob \<noteq> [] \<and> Output_ProcessCommand ob \<noteq> Inl OutOfRange) ts"
| "in_range (Notified hs cs) = True"

text \<open>A line that is neither marker goes to the processor.\<close>

definition passthrough :: "Command \<Rightarrow> bool" where
  "passthrough c = (cmd_text c \<noteq> START_BLOCK \<and> cmd_text c \<noteq> END_BLOCK)"

text \<open>
  Lines inside a block, seen from \<open>d\<close> blocks below the outermost one, where the depth
  of the session is \<open>d + 1\<close>: \<open>inside d cs\<close> says that \<open>cs\<close> never closes more than these
  \<open>d\<close> blocks and those it opens itself, and never takes the depth beyond the largest
  \<open>int\<close>, 2147483647; \<open>level d cs\<close> is how many blocks are open after \<open>cs\<close>. A properly
  nested body closes exactly what it opens.
\<close>

fun inside :: "nat \<Rightarrow> Command list \<Rightarrow> bool" where
  "inside d [] = True"
| "inside d (c # cs) =
     (if cmd_text c = START_BLOCK then d + 2 \<le> 2147483647 \<and> inside (Suc d) cs
      else if cmd_text c = END_BLOCK then 0 < d \<and> inside (d - 1) cs
      else inside d cs)"

fun level :: "nat \<Rightarrow> Command list \<Rightarrow> nat" where
  "level d [] = d"
| "level d (c # cs) =
     (if cmd_text c = START_BLOCK then level (Suc d) cs
      else if cmd_text c = END_BLOCK then level (d - 1) cs
      else level d cs)"

definition properly_nested :: "Command list \<Rightarrow> bool" where
  "properly_nested cs = (inside 0 cs \<and> level 0 cs = 0)"

text \<open>
  The processor and its subscribers are in step when every registered subscriber that
  is still there holds the pending batch as its snapshot. \<open>notify\<close> brings them in
  step, so they are in step after every submission and after every flush; a subscriber
  that is subscribed while commands are pending is not.
\<close>

definition synced :: "BatchCommandProcessor \<Rightarrow> world \<Rightarrow> bool" where
  "synced p w =
     list_all (\<lambda>s. case heap w s of None \<Rightarrow> True | Some ob \<Rightarrow> snapshot ob = m_commands p)
       (m_subscribers p)"

text \<open>The events recorded after the world \<open>w\<close>, up to the later world \<open>w'\<close>.\<close>

definition since :: "world \<Rightarrow> world \<Rightarrow> event list" where
  "since w w' = drop (length (trace w)) (trace w')"

text \<open>
  What \<open>DumpBatch\<close> and \<open>ProcessCommand\<close> leave when every thread reads in range: the
  fan-out is recorded if anything is pending, then the batch is cleared and the
  subscribers are notified.
\<close>

definition dumped :: "BatchCommandProcessor \<Rightarrow> world \<Rightarrow> BatchCommandProcessor \<times> world" where
  "dumped p w =
     ClearBatch p
       (if m_commands p \<noteq> []
        then w\<lparr>trace := trace w @ [Dumped (m_commands p) (threads (heap w) (m_subscribers p))]\<rparr>
        else w)"

definition submitted ::
  "Command \<Rightarrow> BatchCommandProcessor \<Rightarrow> world \<Rightarrow> BatchCommandProcessor \<times> world" where
  "submitted command p w =
     (let p1 = p\<lparr>m_commands := m_commands p @ [command]\<rparr>;
          w1 = notify p1 w
      in if \<not> m_blockForced p1 \<and> m_bulkSize p1 \<le> length (m_commands p1)
         then dumped p1 w1
         else (p1, w1))"

text \<open>Concrete values for the examples below.\<close>

definition cmd :: "string \<Rightarrow> Command" where
  "cmd s = \<lparr>cmd_text = s, timeStamp = 0\<rparr>"

definition one_console :: world where
  "one_console = \<lparr>heap = [0 \<mapsto> ConsoleOutput []], trace = []\<rparr>"

text \<open>
  A \<open>ReportWriter\<close> that nobody has notified yet, and a processor with bulk size 3 that
  was given the command \<open>a\<close> before that writer was subscribed: the writer is
  registered, the command is pending, and the writer's snapshot is empty.
\<close>

definition late_writer :: world where
  "late_writer = \<lparr>heap = [0 \<mapsto> ReportWriter []], trace = [Notified [] [cmd ''a'']]\<rparr>"

definition pending_a :: BatchCommandProcessor where
  "pending_a =
     subscribe (Some 0)
       \<lparr>m_bulkSize = 3, m_blockForced = False, m_commands = [cmd ''a''], m_subscribers = []\<rparr>"

section \<open>The loops of notify and DumpBatch\<close>

lemma update_idem: "update cs (update cs ob) = update cs ob"
  by (cases ob) simp_all

lemma update_update: "update cs (update ds ob) = update cs ob"
  by (cases ob) simp_all

lemma snapshot_update: "snapshot (update cs ob) = cs"
  by (cases ob) simp_all

lemma map_fst_threads: "map fst (threads (heap w) ss) = filter (alive w) ss"
  by (induction ss) (auto simp: alive_def split: option.splits)

lemma snd_notify_loop: "snd (notify_loop cs ss hp) = filter (\<lambda>s. hp s \<noteq> None) ss"
proof (induction ss arbitrary: hp)
  case Nil
  show ?case by simp
next
  case (Cons s ss)
  show ?case
  proof (cases "hp s")
    case None
    then show ?thesis using Cons.IH [of hp] by simp
  next
    case (Some ob)
    define hp' where "hp' = hp(s \<mapsto> update cs ob)"
    have live: "filter (\<lambda>x. hp' x \<noteq> None) ss = filter (\<lambda>x. hp x \<noteq> None) ss"
      using Some by (intro filter_cong) (auto simp: hp'_def)
    have "snd (notify_loop cs (s # ss) hp) = s # snd (notify_loop cs ss hp')"
      using Some by (simp add: split_beta hp'_def)
    also have "\<dots> = s # filter (\<lambda>x. hp x \<noteq> None) ss"
      by (simp only: Cons.IH [of hp'] live)
    finally show ?thesis using Some by simp
  qed
qed

lemma fst_notify_loop:
  "fst (notify_loop cs ss hp) x =
     (if x \<in> set ss then map_option (update cs) (hp x) else hp x)"
proof (induction ss arbitrary: hp)
  case Nil
  show ?case by simp
next
  case (Cons s ss)
  show ?case
  proof (cases "hp s")
    case None
    then show ?thesis using Cons.IH [of hp] by auto
  next
    case (Some ob)
    define hp' where "hp' = hp(s \<mapsto> update cs ob)"
    have step: "fst (notify_loop cs (s # ss) hp) x = fst (notify_loop cs ss hp') x"
      using Some by (simp add: split_beta hp'_def)
    have "fst (notify_loop cs ss hp') x =
            (if x \<in> set ss then map_option (update cs) (hp' x) else hp' x)"
      by (rule Cons.IH)
    then show ?thesis
      unfolding step using Some by (auto simp: hp'_def update_idem)
  qed
qed

lemma heap_notify:
  "heap (notify p w) x =
     (if x \<in> set (m_subscribers p) then map_option (update (m_commands p)) (heap w x)
      else heap w x)"
  by (simp add: notify_def split_beta fst_notify_loop)

lemma trace_notify:
  "trace (notify p w) =
     trace w @ [Notified (filter (alive w) (m_subscribers p)) (m_commands p)]"
  using snd_notify_loop [of "m_commands p" "m_subscribers p" "heap w"]
  by (simp add: notify_def split_beta alive_def [abs_def])

lemma threads_map:
  "(\<And>x. x \<in> set ss \<Longrightarrow> hp' x = map_option f (hp x)) \<Longrightarrow>
   threads hp' ss = map (\<lambda>(s, ob). (s, f ob)) (threads hp ss)"
  by (induction ss) (auto split: option.splits)

lemma threads_notify:
  "threads (heap (notify p w)) (m_subscribers p) =
     map (\<lambda>(s, ob). (s, update (m_commands p) ob)) (threads (heap w) (m_subscribers p))"
  by (rule threads_map) (simp add: heap_notify)

lemma alive_notify: "alive (notify p w) s = alive w s"
  by (simp add: alive_def heap_notify)

lemma flushed_append: "flushed (es @ fs) = flushed es @ flushed fs"
  by (induction es rule: flushed.induct) simp_all

lemma count_list_filter: "count_list (filter P xs) s = (if P s then count_list xs s else 0)"
  by (induction xs) auto

lemma since_append: "trace w' = trace w @ es \<Longrightarrow> since w w' = es"
  by (simp add: since_def)

text \<open>The world a fan-out that completes leaves.\<close>

lemma fst_dumped: "fst (dumped p w) = p\<lparr>m_commands := []\<rparr>"
  by (simp add: dumped_def ClearBatch_def Let_def)

lemma trace_dumped:
  "trace (snd (dumped p w)) =
     trace w @ (if m_commands p = [] then []
                else [Dumped (m_commands p) (threads (heap w) (m_subscribers p))])
       @ [Notified (filter (alive w) (m_subscribers p)) []]"
  by (simp add: dumped_def ClearBatch_def Let_def trace_notify alive_def [abs_def])

lemma heap_dumped:
  "heap (snd (dumped p w)) x =
     (if x \<in> set (m_subscribers p) then map_option (update []) (heap w x) else heap w x)"
  by (simp add: dumped_def ClearBatch_def Let_def heap_notify)

lemma alive_dumped: "alive (snd (dumped p w)) s = alive w s"
  by (simp add: alive_def heap_dumped)

lemma dumped_blockForced:
  "dumped (p\<lparr>m_blockForced := b\<rparr>) w =
     ((fst (dumped p w))\<lparr>m_blockForced := b\<rparr>, snd (dumped p w))"
  by (simp add: dumped_def ClearBatch_def Let_def notify_def)

text \<open>When the threads read in range.\<close>

lemma in_bounds: "snapshot ob \<noteq> [] \<Longrightarrow> Output_ProcessCommand ob \<noteq> Inl e"
  by (cases ob) (auto simp: GetFilename_def split: list.splits)

lemma join_all_holding:
  "holding cs ts \<Longrightarrow> cs \<noteq> [] \<Longrightarrow> \<exists>xs. join_all ts = Inr xs"
proof (induction ts)
  case Nil
  show ?case by simp
next
  case (Cons t ts)
  obtain s ob where t: "t = (s, ob)" by (cases t)
  have "snapshot ob \<noteq> []" using Cons.prems by (simp add: t holding_def)
  then obtain x where x: "Output_ProcessCommand ob = Inr x"
    using in_bounds [of ob] by (cases "Output_ProcessCommand ob") auto
  have "holding cs ts" using Cons.prems(1) by (simp add: holding_def)
  then obtain xs where "join_all ts = Inr xs" using Cons.IH Cons.prems(2) by blast
  then show ?case by (simp add: t x)
qed

lemma threads_synced: "synced p w \<Longrightarrow> holding (m_commands p) (threads (heap w) (m_subscribers p))"
proof -
  have "list_all (\<lambda>s. case hp s of None \<Rightarrow> True | Some ob \<Rightarrow> snapshot ob = cs) ss \<Longrightarrow>
        list_all (\<lambda>(s, ob). snapshot ob = cs) (threads hp ss)" for hp cs ss
    by (induction ss) (auto split: option.splits)
  then show "synced p w \<Longrightarrow> ?thesis" by (simp add: synced_def holding_def)
qed

lemma DumpBatch_empty: "m_commands p = [] \<Longrightarrow> DumpBatch p w = Inr (dumped p w)"
  by (simp add: DumpBatch_def dumped_def)

lemma DumpBatch_synced: "synced p w \<Longrightarrow> DumpBatch p w = Inr (dumped p w)"
proof (cases "m_commands p = []")
  case True
  then show ?thesis by (rule DumpBatch_empty)
next
  case False
  assume "synced p w"
  then obtain xs where "join_all (threads (heap w) (m_subscribers p)) = Inr xs"
    using join_all_holding [OF threads_synced False] by blast
  then show ?thesis using False by (simp add: DumpBatch_def dumped_def Let_def)
qed

lemma DumpBatch_cases:
  "DumpBatch p w = Inl OutOfRange \<or> DumpBatch p w = Inr (dumped p w)"
proof (cases "join_all (threads (heap w) (m_subscribers p))")
  case (Inl e)
  then show ?thesis by (cases e) (simp add: DumpBatch_def dumped_def Let_def)
next
  case (Inr xs)
  then show ?thesis by (simp add: DumpBatch_def dumped_def Let_def)
qed

lemma synced_notify: "synced p (notify p w)"
  by (simp add: synced_def list_all_iff heap_notify snapshot_update split: option.splits)

lemma synced_dumped: "synced (fst (dumped p w)) (snd (dumped p w))"
  by (simp add: dumped_def ClearBatch_def Let_def synced_notify)

lemma synced_blockForced: "synced (p\<lparr>m_blockForced := b\<rparr>) w = synced p w"
  by (simp add: synced_def list_all_iff split: option.splits)

lemma holding_in_range:
  "holding cs ts \<Longrightarrow> cs \<noteq> [] \<Longrightarrow> in_range (Dumped cs ts)"
  by (auto simp: holding_def list_all_iff in_bounds)

lemma in_range_dumped:
  assumes "synced p w"
  shows "list_all in_range (since w (snd (dumped p w)))"
proof -
  have ev: "since w (snd (dumped p w)) =
      (if m_commands p = [] then []
       else [Dumped (m_commands p) (threads (heap w) (m_subscribers p))])
      @ [Notified (filter (alive w) (m_subscribers p)) []]"
    by (rule since_append) (simp add: trace_dumped)
  show ?thesis
    using holding_in_range [OF threads_synced [OF assms]] by (simp add: ev)
qed

text \<open>A submission always completes: \<open>notify\<close> comes before the fan-out.\<close>

lemma ProcessCommand_submitted: "ProcessCommand c p w = Inr (submitted c p w)"
proof -
  define p1 where "p1 = p\<lparr>m_commands := m_commands p @ [c]\<rparr>"
  have "DumpBatch p1 (notify p1 w) = Inr (dumped p1 (notify p1 w))"
    by (rule DumpBatch_synced) (rule synced_notify)
  then show ?thesis
    by (simp add: ProcessCommand_def submitted_def Let_def p1_def)
qed

lemma fst_submitted:
  "fst (submitted c p w) =
     p\<lparr>m_commands := if \<not> m_blockForced p \<and> m_bulkSize p \<le> length (m_commands p @ [c])
                      then [] else m_commands p @ [c]\<rparr>"
  by (simp add: submitted_def Let_def fst_dumped)

lemma trace_submitted:
  "trace (snd (submitted c p w)) =
     trace w
     @ [Notified (filter (alive w) (m_subscribers p)) (m_commands p @ [c])]
     @ (if \<not> m_blockForced p \<and> m_bulkSize p \<le> length (m_commands p @ [c])
        then [Dumped (m_commands p @ [c])
                (map (\<lambda>(s, ob). (s, update (m_commands p @ [c]) ob))
                   (threads (heap w) (m_subscribers p))),
              Notified (filter (alive w) (m_subscribers p)) []]
        else [])"
proof -
  define p1 where "p1 = p\<lparr>m_commands := m_commands p @ [c]\<rparr>"
  have t: "threads (heap (notify p1 w)) (m_subscribers p) =
      map (\<lambda>(s, ob). (s, update (m_commands p @ [c]) ob)) (threads (heap w) (m_subscribers p))"
    using threads_notify [of p1 w] by (simp add: p1_def)
  have a: "filter (alive (notify p1 w)) (m_subscribers p) = filter (alive w) (m_subscribers p)"
    by (simp add: alive_notify [abs_def])
  show ?thesis
    using t a
    by (simp add: submitted_def Let_def trace_dumped trace_notify p1_def [symmetric])
      (simp add: p1_def)
qed

lemma heap_submitted:
  "heap (snd (submitted c p w)) x =
     (if x \<in> set (m_subscribers p)
      then map_option
             (update (if \<not> m_blockForced p \<and> m_bulkSize p \<le> length (m_commands p @ [c])
                      then [] else m_commands p @ [c]))
             (heap w x)
      else heap w x)"
  by (simp add: submitted_def Let_def heap_dumped heap_notify option.map_comp
      comp_def update_update)

lemma alive_submitted: "alive (snd (submitted c p w)) s = alive w s"
  by (simp add: alive_def heap_submitted)

lemma synced_submitted: "synced (fst (submitted c p w)) (snd (submitted c p w))"
  by (simp add: submitted_def Let_def synced_dumped synced_notify)

lemma in_range_submitted: "list_all in_range (since w (snd (submitted c p w)))"
proof -
  define p1 where "p1 = p\<lparr>m_commands := m_commands p @ [c]\<rparr>"
  define w1 where "w1 = notify p1 w"
  have n: "trace w1 = trace w @ [Notified (filter (alive w) (m_subscribers p)) (m_commands p1)]"
    by (simp add: w1_def trace_notify p1_def)
  have sy: "synced p1 w1" by (simp add: w1_def synced_notify)
  obtain es where es: "trace (snd (dumped p1 w1)) = trace w1 @ es"
    by (simp add: trace_dumped)
  have "list_all in_range (since w1 (snd (dumped p1 w1)))"
    using in_range_dumped [OF sy] .
  then have d: "list_all in_range es" using since_append [OF es] by simp
  have "since w (snd (dumped p1 w1)) =
      Notified (filter (alive w) (m_subscribers p)) (m_commands p1) # es"
    by (rule since_append) (simp add: es n)
  moreover have "since w w1 = [Notified (filter (alive w) (m_subscribers p)) (m_commands p1)]"
    using n by (rule since_append)
  ultimately show ?thesis
    using d by (simp add: submitted_def Let_def p1_def [symmetric] w1_def [symmetric])
qed

section \<open>Evaluating concrete runs\<close>

lemmas engine_defs =
  BatchCommandProcessor_init_def ProcessCommand_def DumpBatch_def ClearBatch_def notify_def
  StartBlock_def FinishBlock_def BatchCommandProcessor_destroy_def release_all_def lock_def
  Let_def alive_def since_def cmd_def one_console_def late_writer_def pending_a_def
  holding_def GetFilename_def

lemmas session_defs =
  BatchConsoleInput_init_def BatchConsoleInput_ProcessCommand_def BatchConsoleInput_destroy_def
  START_BLOCK_def END_BLOCK_def passthrough_def properly_nested_def

text \<open>
  The state of \<open>pending_a\<close> and \<open>late_writer\<close> is reached through the public operations:
  a submission to a processor without subscribers, then \<open>subscribe\<close>.
\<close>

lemma late_writer_reached:
  "ProcessCommand (cmd ''a'') (BatchCommandProcessor_init 3)
      \<lparr>heap = [0 \<mapsto> ReportWriter []], trace = []\<rparr> =
     Inr (\<lparr>m_bulkSize = 3, m_blockForced = False, m_commands = [cmd ''a''],
            m_subscribers = []\<rparr>, late_writer)"
  by (simp add: engine_defs)

section \<open>Flushing\<close>

text \<open>
  C2, as the code has it. A flush with nothing pending starts no thread (no flush
  action runs) and leaves the processor as it is, but \<open>ClearBatch\<close> runs all the same:
  every live subscriber is notified with the empty snapshot, which it holds from then
  on.
\<close>

theorem empty_flush_still_notifies:
  "m_commands p = [] \<Longrightarrow>
     \<exists>w'. DumpBatch p w = Inr (p, w') \<and>
          trace w' = trace w @ [Notified (filter (alive w) (m_subscribers p)) []] \<and>
          holding [] (threads (heap w') (m_subscribers p))"
proof -
  assume e: "m_commands p = []"
  have "DumpBatch p w = Inr (dumped p w)" using e by (rule DumpBatch_empty)
  moreover have "fst (dumped p w) = p" using e by (simp add: fst_dumped)
  moreover have "trace (snd (dumped p w)) =
      trace w @ [Notified (filter (alive w) (m_subscribers p)) []]"
    using e by (simp add: trace_dumped)
  moreover have "holding [] (threads (heap (snd (dumped p w))) (m_subscribers p))"
    using threads_synced [OF synced_dumped [of p w]] by (simp add: fst_dumped)
  ultimately show ?thesis by (cases "dumped p w") auto
qed

theorem empty_flush_still_notifies_witness:
  "m_commands (subscribe (Some 0) (BatchCommandProcessor_init 3)) = [] \<and>
   (\<exists>w'. DumpBatch (subscribe (Some 0) (BatchCommandProcessor_init 3)) one_console =
           Inr (subscribe (Some 0) (BatchCommandProcessor_init 3), w') \<and>
         trace w' = trace one_console @ [Notified [0] []] \<and>
         holding [] (threads (heap w') [0]))"
  using empty_flush_still_notifies
    [of "subscribe (Some 0) (BatchCommandProcessor_init 3)" one_console]
  by (simp add: BatchCommandProcessor_init_def one_console_def alive_def)

text \<open>
  C2 as stated fails: a processor with one live subscriber and nothing pending sends
  that subscriber a notification when it flushes.
\<close>

theorem empty_flush_notification_sent:
  "m_commands (subscribe (Some 0) (BatchCommandProcessor_init 3)) = [] \<and>
   trace one_console = [] \<and>
   (case DumpBatch (subscribe (Some 0) (BatchCommandProcessor_init 3)) one_console of
      Inl e \<Rightarrow> False
    | Inr (p', w') \<Rightarrow> trace w' = [Notified [0] []])"
  by (simp add: engine_defs)

text \<open>
  C4. \<open>ProcessCommand\<close> appends the command, then notifies every live subscriber with
  the whole pending batch (on every submission), and only then, if no block is forced
  and the batch has reached the bulk size, flushes: the fan-out finds every live
  subscriber holding that batch, the batch is cleared and the subscribers are notified
  of the empty batch. The subscribers end up with the pending batch as it is then. A
  submission never reads out of range.
\<close>

theorem submit_order:
  "\<exists>p' w'. ProcessCommand c p w = Inr (p', w') \<and>
     trace w' =
       trace w
       @ [Notified (filter (alive w) (m_subscribers p)) (m_commands p @ [c])]
       @ (if \<not> m_blockForced p \<and> m_bulkSize p \<le> length (m_commands p @ [c])
          then [Dumped (m_commands p @ [c])
                  (map (\<lambda>(s, ob). (s, update (m_commands p @ [c]) ob))
                     (threads (heap w) (m_subscribers p))),
                Notified (filter (alive w) (m_subscribers p)) []]
          else []) \<and>
     p' =
       p\<lparr>m_commands := if \<not> m_blockForced p \<and> m_bulkSize p \<le> length (m_commands p @ [c])
                        then [] else m_commands p @ [c]\<rparr> \<and>
     (\<forall>x. heap w' x =
       (if x \<in> set (m_subscribers p)
        then map_option
               (update (if \<not> m_blockForced p \<and> m_bulkSize p \<le> length (m_commands p @ [c])
                        then [] else m_commands p @ [c]))
               (heap w x)
        else heap w x))"
proof -
  obtain p' w' where s: "submitted c p w = (p', w')"
    by (cases "submitted c p w")
  have "ProcessCommand c p w = Inr (p', w')"
    by (simp add: ProcessCommand_submitted s)
  moreover have "trace w' =
       trace w
       @ [Notified (filter (alive w) (m_subscribers p)) (m_commands p @ [c])]
       @ (if \<not> m_blockForced p \<and> m_bulkSize p \<le> length (m_commands p @ [c])
          then [Dumped (m_commands p @ [c])
                  (map (\<lambda>(s, ob). (s, update (m_commands p @ [c]) ob))
                     (threads (heap w) (m_subscribers p))),
                Notified (filter (alive w) (m_subscribers p)) []]
          else [])"
    using trace_submitted [of c p w] by (simp only: s snd_conv)
  moreover have "p' =
       p\<lparr>m_commands := if \<not> m_blockForced p \<and> m_bulkSize p \<le> length (m_commands p @ [c])
                        then [] else m_commands p @ [c]\<rparr>"
    using fst_submitted [of c p w] by (simp only: s fst_conv)
  moreover have "heap w' x =
       (if x \<in> set (m_subscribers p)
        then map_option
               (update (if \<not> m_blockForced p \<and> m_bulkSize p \<le> length (m_commands p @ [c])
                        then [] else m_commands p @ [c]))
               (heap w x)
        else heap w x)" for x
    using heap_submitted [of c p w x] by (simp only: s snd_conv)
  ultimately show ?thesis by blast
qed

text \<open>Bulk size 2, one subscriber: the first command is only notified, the second flushes.\<close>

theorem submit_order_witness:
  "(\<exists>p' w'. ProcessCommand (cmd ''a'')
       (subscribe (Some 0) (BatchCommandProcessor_init 2)) one_console = Inr (p', w') \<and>
     trace w' = [Notified [0] [cmd ''a'']] \<and>
     heap w' 0 = Some (ConsoleOutput [cmd ''a''])) \<and>
   (\<exists>p' w'. ProcessCommand (cmd ''b'')
       ((subscribe (Some 0) (BatchCommandProcessor_init 2))\<lparr>m_commands := [cmd ''a'']\<rparr>)
       one_console = Inr (p', w') \<and>
     trace w' =
       [Notified [0] [cmd ''a'', cmd ''b''],
        Dumped [cmd ''a'', cmd ''b''] [(0, ConsoleOutput [cmd ''a'', cmd ''b''])],
        Notified [0] []] \<and>
     m_commands p' = [] \<and>
     heap w' 0 = Some (ConsoleOutput []))"
  using submit_order [of "cmd ''a''" "subscribe (Some 0) (BatchCommandProcessor_init 2)"
      one_console]
    submit_order [of "cmd ''b''"
      "(subscribe (Some 0) (BatchCommandProcessor_init 2))\<lparr>m_commands := [cmd ''a'']\<rparr>"
      one_console]
  by (simp add: engine_defs)

text \<open>
  C5, as the code has it. The live subscribers hold the pending batch, as they do
  after every submission. Then a flush of a non-empty batch starts one thread per live
  entry of the registry, in registry order: a subscriber's flush action runs once for
  every time it is registered (once when it is registered once, as the two
  subscribers of the wired session are), on the pending batch, and never for a
  subscriber that is gone. All threads are joined before anything else happens; only
  then is the batch cleared and every live subscriber notified of the empty batch,
  which they hold from then on.
\<close>

theorem flush_fan_out:
  assumes "m_commands p \<noteq> []" and "synced p w"
  shows "\<exists>w'. DumpBatch p w = Inr (p\<lparr>m_commands := []\<rparr>, w') \<and>
     trace w' =
       trace w @ [Dumped (m_commands p) (threads (heap w) (m_subscribers p)),
                  Notified (filter (alive w) (m_subscribers p)) []] \<and>
     map fst (threads (heap w) (m_subscribers p)) = filter (alive w) (m_subscribers p) \<and>
     (\<forall>s. count_list (map fst (threads (heap w) (m_subscribers p))) s =
            (if alive w s then count_list (m_subscribers p) s else 0)) \<and>
     holding (m_commands p) (threads (heap w) (m_subscribers p)) \<and>
     holding [] (threads (heap w') (m_subscribers p)) \<and>
     map fst (threads (heap w') (m_subscribers p)) = filter (alive w) (m_subscribers p)"
proof -
  define w' where "w' = snd (dumped p w)"
  have "DumpBatch p w = Inr (p\<lparr>m_commands := []\<rparr>, w')"
    using DumpBatch_synced [OF assms(2)] fst_dumped [of p w]
    by (cases "dumped p w") (simp add: w'_def)
  moreover have "trace w' =
       trace w @ [Dumped (m_commands p) (threads (heap w) (m_subscribers p)),
                  Notified (filter (alive w) (m_subscribers p)) []]"
    using assms(1) by (simp add: w'_def trace_dumped)
  moreover have "holding (m_commands p) (threads (heap w) (m_subscribers p))"
    using assms(2) by (rule threads_synced)
  moreover have "holding [] (threads (heap w') (m_subscribers p))"
    using threads_synced [OF synced_dumped [of p w]] by (simp add: fst_dumped w'_def)
  moreover have "map fst (threads (heap w') (m_subscribers p)) =
      filter (alive w) (m_subscribers p)"
    by (simp add: map_fst_threads w'_def alive_dumped [abs_def])
  ultimately show ?thesis
    by (simp add: map_fst_threads count_list_filter)
qed

text \<open>
  One live subscriber (0) and one that is gone (5), the batch \<open>[a]\<close> pending: one thread,
  for subscriber 0, which holds \<open>[a]\<close> before and nothing after.
\<close>

theorem flush_fan_out_witness:
  "m_commands \<lparr>m_bulkSize = 3, m_blockForced = False, m_commands = [cmd ''a''],
               m_subscribers = [0, 5]\<rparr> \<noteq> [] \<and>
   synced \<lparr>m_bulkSize = 3, m_blockForced = False, m_commands = [cmd ''a''],
            m_subscribers = [0, 5]\<rparr>
     \<lparr>heap = [0 \<mapsto> ConsoleOutput [cmd ''a'']], trace = []\<rparr> \<and>
   (\<exists>w'. DumpBatch
       \<lparr>m_bulkSize = 3, m_blockForced = False, m_commands = [cmd ''a''],
         m_subscribers = [0, 5]\<rparr>
       \<lparr>heap = [0 \<mapsto> ConsoleOutput [cmd ''a'']], trace = []\<rparr> =
         Inr (\<lparr>m_bulkSize = 3, m_blockForced = False, m_commands = [],
                m_subscribers = [0, 5]\<rparr>, w') \<and>
       trace w' = [Dumped [cmd ''a''] [(0, ConsoleOutput [cmd ''a''])], Notified [0] []] \<and>
       threads (heap w') [0, 5] = [(0, ConsoleOutput [])]) \<and>
   count_list (map fst (threads [0 \<mapsto> ConsoleOutput [cmd ''a'']] [0, 5])) 0 = 1"
  using flush_fan_out
    [of "\<lparr>m_bulkSize = 3, m_blockForced = False, m_commands = [cmd ''a''],
           m_subscribers = [0, 5]\<rparr>"
        "\<lparr>heap = [0 \<mapsto> ConsoleOutput [cmd ''a'']], trace = []\<rparr>"]
  by (simp add: synced_def engine_defs)

text \<open>
  C5 as stated fails in two ways, both after a call of \<open>subscribe\<close>. \<open>subscribe\<close> does not
  look for duplicates, and a subscriber that was subscribed twice has its flush action
  run twice in one flush. And a \<open>ReportWriter\<close> that was subscribed while a command was
  pending still holds an empty snapshot: its flush action reads out of range, and the
  flush does not complete.
\<close>

theorem double_registration_flushes_twice:
  "m_subscribers (subscribe (Some 0) (subscribe (Some 0) (BatchCommandProcessor_init 1))) =
     [0, 0] \<and>
   (case ProcessCommand (cmd ''a'')
      (subscribe (Some 0) (subscribe (Some 0) (BatchCommandProcessor_init 1))) one_console of
      Inl e \<Rightarrow> False
    | Inr (p', w') \<Rightarrow>
        trace w' =
          [Notified [0, 0] [cmd ''a''],
           Dumped [cmd ''a''] [(0, ConsoleOutput [cmd ''a'']), (0, ConsoleOutput [cmd ''a''])],
           Notified [0, 0] []]) \<and>
   m_commands pending_a = [cmd ''a''] \<and>
   threads (heap late_writer) (m_subscribers pending_a) = [(0, ReportWriter [])] \<and>
   DumpBatch pending_a late_writer = Inl OutOfRange"
  by (simp add: engine_defs)

text \<open>
  C7, as the code has it. The live subscribers hold the pending batch, as they do
  after every submission. Then \<open>StartBlock\<close> sets the forced flag and \<open>FinishBlock\<close>
  clears it, and both flush whatever is pending, whatever its size: if anything is
  pending, every live subscriber runs its flush action on it, once per entry of the
  registry. Afterwards nothing is pending and the live subscribers hold the empty
  batch, so a block starts on an empty batch.
\<close>

theorem hold_transitions_flush:
  assumes "synced p w"
  shows "\<exists>w'. StartBlock p w = Inr (p\<lparr>m_blockForced := True, m_commands := []\<rparr>, w') \<and>
     FinishBlock p w = Inr (p\<lparr>m_blockForced := False, m_commands := []\<rparr>, w') \<and>
     trace w' =
       trace w @ (if m_commands p = [] then []
                  else [Dumped (m_commands p) (threads (heap w) (m_subscribers p))])
         @ [Notified (filter (alive w) (m_subscribers p)) []] \<and>
     map fst (threads (heap w) (m_subscribers p)) = filter (alive w) (m_subscribers p) \<and>
     holding (m_commands p) (threads (heap w) (m_subscribers p)) \<and>
     holding [] (threads (heap w') (m_subscribers p)) \<and>
     map fst (threads (heap w') (m_subscribers p)) = filter (alive w) (m_subscribers p)"
proof -
  define w' where "w' = snd (dumped p w)"
  have d: "dumped (p\<lparr>m_blockForced := b\<rparr>) w = (p\<lparr>m_blockForced := b, m_commands := []\<rparr>, w')"
    for b
    by (simp add: dumped_blockForced fst_dumped w'_def)
  have "StartBlock p w = Inr (p\<lparr>m_blockForced := True, m_commands := []\<rparr>, w')"
    using DumpBatch_synced [of "p\<lparr>m_blockForced := True\<rparr>" w] assms
    by (simp add: StartBlock_def synced_blockForced d)
  moreover have "FinishBlock p w = Inr (p\<lparr>m_blockForced := False, m_commands := []\<rparr>, w')"
    using DumpBatch_synced [of "p\<lparr>m_blockForced := False\<rparr>" w] assms
    by (simp add: FinishBlock_def synced_blockForced d)
  moreover have "trace w' =
       trace w @ (if m_commands p = [] then []
                  else [Dumped (m_commands p) (threads (heap w) (m_subscribers p))])
         @ [Notified (filter (alive w) (m_subscribers p)) []]"
    by (simp add: w'_def trace_dumped)
  moreover have "holding (m_commands p) (threads (heap w) (m_subscribers p))"
    using assms by (rule threads_synced)
  moreover have "holding [] (threads (heap w') (m_subscribers p))"
    using threads_synced [OF synced_dumped [of p w]] by (simp add: fst_dumped w'_def)
  moreover have "map fst (threads (heap w') (m_subscribers p)) =
      filter (alive w) (m_subscribers p)"
    by (simp add: map_fst_threads w'_def alive_dumped [abs_def])
  ultimately show ?thesis
    by (simp add: map_fst_threads)
qed

text \<open>
  Bulk size 3 and one command pending, which the subscriber holds: both transitions
  flush it, and the subscriber holds nothing afterwards.
\<close>

theorem hold_transitions_flush_witness:
  "synced \<lparr>m_bulkSize = 3, m_blockForced = False, m_commands = [cmd ''a''],
            m_subscribers = [0]\<rparr>
     \<lparr>heap = [0 \<mapsto> ConsoleOutput [cmd ''a'']], trace = []\<rparr> \<and>
   (\<exists>w'. StartBlock
       \<lparr>m_bulkSize = 3, m_blockForced = False, m_commands = [cmd ''a''],
         m_subscribers = [0]\<rparr>
       \<lparr>heap = [0 \<mapsto> ConsoleOutput [cmd ''a'']], trace = []\<rparr> =
         Inr (\<lparr>m_bulkSize = 3, m_blockForced = True, m_commands = [],
                m_subscribers = [0]\<rparr>, w') \<and>
       FinishBlock
       \<lparr>m_bulkSize = 3, m_blockForced = False, m_commands = [cmd ''a''],
         m_subscribers = [0]\<rparr>
       \<lparr>heap = [0 \<mapsto> ConsoleOutput [cmd ''a'']], trace = []\<rparr> =
         Inr (\<lparr>m_bulkSize = 3, m_blockForced = False, m_commands = [],
                m_subscribers = [0]\<rparr>, w') \<and>
       trace w' = [Dumped [cmd ''a''] [(0, ConsoleOutput [cmd ''a''])], Notified [0] []] \<and>
       threads (heap w') [0] = [(0, ConsoleOutput [])])"
  using hold_transitions_flush
    [of "\<lparr>m_bulkSize = 3, m_blockForced = False, m_commands = [cmd ''a''],
           m_subscribers = [0]\<rparr>"
        "\<lparr>heap = [0 \<mapsto> ConsoleOutput [cmd ''a'']], trace = []\<rparr>"]
  by (simp add: synced_def engine_defs)

text \<open>
  C7 as stated fails when a \<open>ReportWriter\<close> was subscribed while a command was pending:
  it still holds an empty snapshot, and the flush of either hold transition reads out
  of range in its thread.
\<close>

theorem hold_transition_out_of_range:
  "m_commands pending_a = [cmd ''a''] \<and>
   m_subscribers pending_a = [0] \<and>
   heap late_writer 0 = Some (ReportWriter []) \<and>
   StartBlock pending_a late_writer = Inl OutOfRange \<and>
   FinishBlock pending_a late_writer = Inl OutOfRange"
  by (simp add: engine_defs)

text \<open>
  The destructor's loop, two live subscribers registered: after the first is erased
  the second stands at place 0, the loop goes on at place 1, and the second stays.
\<close>

lemma release_all_skips:
  "m_subscribers (release_all
      \<lparr>m_bulkSize = 3, m_blockForced = False, m_commands = [], m_subscribers = [0, 1]\<rparr>
      \<lparr>heap = [0 \<mapsto> ReportWriter [], 1 \<mapsto> ConsoleOutput []], trace = []\<rparr>) = [1]"
  by (simp add: release_all_def lock_def upt_rec)

section \<open>The steps of the session\<close>

lemma markers_differ: "START_BLOCK \<noteq> END_BLOCK"
  by (simp add: START_BLOCK_def END_BLOCK_def)

lemma open_outermost:
  "m_commandProcessor h = Some p \<Longrightarrow> cmd_text c = START_BLOCK \<Longrightarrow> m_blockDepth h = 0 \<Longrightarrow>
   BatchConsoleInput_ProcessCommand c h w =
     (case StartBlock p w of
        Inl e \<Rightarrow> Inl e
      | Inr (p', w') \<Rightarrow> Inr (h\<lparr>m_blockDepth := 1, m_commandProcessor := Some p'\<rparr>, w'))"
  by (cases "StartBlock p w") (auto simp: BatchConsoleInput_ProcessCommand_def Let_def)

lemma open_other:
  "m_commandProcessor h = Some p \<Longrightarrow> cmd_text c = START_BLOCK \<Longrightarrow> m_blockDepth h \<noteq> 0 \<Longrightarrow>
   BatchConsoleInput_ProcessCommand c h w = Inr (h\<lparr>m_blockDepth := m_blockDepth h + 1\<rparr>, w)"
  by (simp add: BatchConsoleInput_ProcessCommand_def Let_def)

lemma close_outermost:
  "m_commandProcessor h = Some p \<Longrightarrow> cmd_text c = END_BLOCK \<Longrightarrow> m_blockDepth h = 1 \<Longrightarrow>
   BatchConsoleInput_ProcessCommand c h w =
     (case FinishBlock p w of
        Inl e \<Rightarrow> Inl e
      | Inr (p', w') \<Rightarrow> Inr (h\<lparr>m_blockDepth := 0, m_commandProcessor := Some p'\<rparr>, w'))"
  by (cases "FinishBlock p w")
    (auto simp: BatchConsoleInput_ProcessCommand_def Let_def markers_differ [symmetric])

lemma close_other:
  "m_commandProcessor h = Some p \<Longrightarrow> cmd_text c = END_BLOCK \<Longrightarrow> m_blockDepth h \<noteq> 1 \<Longrightarrow>
   BatchConsoleInput_ProcessCommand c h w = Inr (h\<lparr>m_blockDepth := m_blockDepth h - 1\<rparr>, w)"
  by (simp add: BatchConsoleInput_ProcessCommand_def Let_def markers_differ [symmetric])

lemma line_passthrough:
  "m_commandProcessor h = Some p \<Longrightarrow> passthrough c \<Longrightarrow>
   BatchConsoleInput_ProcessCommand c h w =
     Inr (h\<lparr>m_commandProcessor := Some (fst (submitted c p w))\<rparr>, snd (submitted c p w))"
  by (simp add: BatchConsoleInput_ProcessCommand_def passthrough_def ProcessCommand_submitted
      split_beta)

lemma StartBlock_synced:
  "synced p w \<Longrightarrow>
   StartBlock p w = Inr (p\<lparr>m_blockForced := True, m_commands := []\<rparr>, snd (dumped p w))"
  using DumpBatch_synced [of "p\<lparr>m_blockForced := True\<rparr>" w]
  by (simp add: StartBlock_def synced_blockForced dumped_blockForced fst_dumped)

lemma FinishBlock_synced:
  "synced p w \<Longrightarrow>
   FinishBlock p w = Inr (p\<lparr>m_blockForced := False, m_commands := []\<rparr>, snd (dumped p w))"
  using DumpBatch_synced [of "p\<lparr>m_blockForced := False\<rparr>" w]
  by (simp add: FinishBlock_def synced_blockForced dumped_blockForced fst_dumped)

lemma synced_cleared:
  "synced (p\<lparr>m_blockForced := b, m_commands := []\<rparr>) (snd (dumped p w))"
  using synced_dumped [of p w] by (simp add: fst_dumped synced_def list_all_iff split: option.splits)

text \<open>
  One line, read by a session whose subscribers are in step: the line is processed
  without an error, the fan-outs it causes are in range, and the session is in step
  again.
\<close>

lemma session_step:
  assumes "m_commandProcessor h = Some p" and "synced p w"
  shows "\<exists>h' w' p' es.
     BatchConsoleInput_ProcessCommand c h w = Inr (h', w') \<and>
     m_commandProcessor h' = Some p' \<and> synced p' w' \<and>
     trace w' = trace w @ es \<and> list_all in_range es \<and>
     m_blockDepth h' =
       m_blockDepth h + (if cmd_text c = START_BLOCK then 1 else 0)
         - (if cmd_text c = END_BLOCK then 1 else 0) \<and>
     m_subscribers p' = m_subscribers p \<and> m_output h' = m_output h \<and>
     (\<forall>s. alive w' s = alive w s)"
proof -
  obtain es where es: "trace (snd (dumped p w)) = trace w @ es"
    by (simp add: trace_dumped)
  have des: "list_all in_range es"
    using in_range_dumped [OF assms(2)] since_append [OF es] by simp
  obtain fs where fs: "trace (snd (submitted c p w)) = trace w @ fs"
    by (simp add: trace_submitted)
  have dfs: "list_all in_range fs"
    using in_range_submitted [of w c p] since_append [OF fs] by simp
  consider (a) "cmd_text c = START_BLOCK" "m_blockDepth h = 0"
    | (b) "cmd_text c = START_BLOCK" "m_blockDepth h \<noteq> 0"
    | (c) "cmd_text c = END_BLOCK" "m_blockDepth h = 1"
    | (d) "cmd_text c = END_BLOCK" "m_blockDepth h \<noteq> 1"
    | (e) "passthrough c"
    by (auto simp: passthrough_def)
  then show ?thesis
  proof cases
    case a
    have "BatchConsoleInput_ProcessCommand c h w =
        Inr (h\<lparr>m_blockDepth := 1,
               m_commandProcessor := Some (p\<lparr>m_blockForced := True, m_commands := []\<rparr>)\<rparr>,
             snd (dumped p w))"
      by (simp add: open_outermost [OF assms(1) a] StartBlock_synced [OF assms(2)])
    then show ?thesis
      using a es des synced_cleared [where b = True and p = p and w = w]
      by (simp add: markers_differ alive_dumped)
  next
    case b
    then show ?thesis
      using open_other [OF assms(1) b, of w] assms by (simp add: markers_differ)
  next
    case c
    have "BatchConsoleInput_ProcessCommand c h w =
        Inr (h\<lparr>m_blockDepth := 0,
               m_commandProcessor := Some (p\<lparr>m_blockForced := False, m_commands := []\<rparr>)\<rparr>,
             snd (dumped p w))"
      by (simp add: close_outermost [OF assms(1) c] FinishBlock_synced [OF assms(2)])
    then show ?thesis
      using c es des synced_cleared [where b = False and p = p and w = w]
      by (simp add: markers_differ [symmetric] alive_dumped)
  next
    case d
    then show ?thesis
      using close_other [OF assms(1) d, of w] assms by (simp add: markers_differ [symmetric])
  next
    case e
    then show ?thesis
      using line_passthrough [OF assms(1) e, of w] fs dfs synced_submitted [of c p w]
      by (simp add: passthrough_def fst_submitted alive_submitted)
  qed
qed

lemma session_run:
  assumes "m_commandProcessor h = Some p" and "synced p w"
  shows "\<exists>h' w' p' es.
     receive_loop cs h w = Inr (h', w') \<and>
     m_commandProcessor h' = Some p' \<and> synced p' w' \<and>
     trace w' = trace w @ es \<and> list_all in_range es \<and>
     m_blockDepth h' =
       m_blockDepth h + word_of_nat (length (filter (\<lambda>c. cmd_text c = START_BLOCK) cs))
         - word_of_nat (length (filter (\<lambda>c. cmd_text c = END_BLOCK) cs)) \<and>
     m_subscribers p' = m_subscribers p \<and> m_output h' = m_output h \<and>
     (\<forall>s. alive w' s = alive w s)"
  using assms
proof (induction cs arbitrary: h p w)
  case Nil
  then show ?case by simp
next
  case (Cons c cs)
  obtain h1 w1 p1 es1 where step: "BatchConsoleInput_ProcessCommand c h w = Inr (h1, w1)"
    and p1: "m_commandProcessor h1 = Some p1" and sy1: "synced p1 w1"
    and t1: "trace w1 = trace w @ es1" and r1: "list_all in_range es1"
    and d1: "m_blockDepth h1 =
       m_blockDepth h + (if cmd_text c = START_BLOCK then 1 else 0)
         - (if cmd_text c = END_BLOCK then 1 else 0)"
    and s1: "m_subscribers p1 = m_subscribers p" and o1: "m_output h1 = m_output h"
    and a1: "\<forall>s. alive w1 s = alive w s"
    using session_step [OF Cons.prems, of c] by blast
  obtain h' w' p' es where run: "receive_loop cs h1 w1 = Inr (h', w')"
    and p': "m_commandProcessor h' = Some p'" and sy: "synced p' w'"
    and t: "trace w' = trace w1 @ es" and r: "list_all in_range es"
    and d: "m_blockDepth h' =
       m_blockDepth h1 + word_of_nat (length (filter (\<lambda>c. cmd_text c = START_BLOCK) cs))
         - word_of_nat (length (filter (\<lambda>c. cmd_text c = END_BLOCK) cs))"
    and s: "m_subscribers p' = m_subscribers p1" and ou: "m_output h' = m_output h1"
    and a: "\<forall>s. alive w' s = alive w1 s"
    using Cons.IH [OF p1 sy1] by blast
  have "receive_loop (c # cs) h w = Inr (h', w')" by (simp add: step run)
  moreover have "trace w' = trace w @ (es1 @ es)" by (simp add: t t1)
  moreover have "list_all in_range (es1 @ es)" using r r1 by simp
  moreover have "m_blockDepth h' =
       m_blockDepth h + word_of_nat (length (filter (\<lambda>c. cmd_text c = START_BLOCK) (c # cs)))
         - word_of_nat (length (filter (\<lambda>c. cmd_text c = END_BLOCK) (c # cs)))"
    by (simp add: d d1)
  ultimately show ?case
    using p' sy s s1 ou o1 a a1
    by (intro exI [of _ h'] exI [of _ w'] exI [of _ p'] exI [of _ "es1 @ es"]) simp
qed

text \<open>The depth read as the signed number it is, where no overflow happens.\<close>

lemma sint_depth:
  fixes a :: "32 word"
  assumes "- 2147483648 \<le> sint a + int x - int y" and "sint a + int x - int y \<le> 2147483647"
  shows "sint (a + word_of_nat x - word_of_nat y) = sint a + int x - int y"
proof -
  define k where "k = sint a + int x - int y"
  have "sint (word_of_int k :: 32 word) = signed_take_bit 31 k"
    by (simp add: sint_sbintrunc')
  also have "\<dots> = k"
    using assms by (simp add: signed_take_bit_int_eq_self k_def)
  finally have "sint (word_of_int k :: 32 word) = k" .
  moreover have "(word_of_int k :: 32 word) = a + word_of_nat x - word_of_nat y"
    by (simp add: k_def)
  ultimately show ?thesis by (simp add: k_def)
qed

section \<open>Inside a block\<close>

lemma depth_not_zero:
  "d + 1 \<le> 2147483647 \<Longrightarrow> (1 + word_of_nat d :: 32 word) \<noteq> 0"
proof
  assume b: "d + 1 \<le> 2147483647" and "(1 + word_of_nat d :: 32 word) = 0"
  then have "(word_of_nat (Suc d) :: 32 word) = 0" by simp
  then have "2 ^ LENGTH(32) dvd Suc d" by (simp only: word_of_nat_eq_0_iff)
  then have "(2 :: nat) ^ LENGTH(32) \<le> Suc d" by (rule dvd_imp_le) simp
  then show False using b by simp
qed

lemma depth_not_one:
  "0 < d \<Longrightarrow> d + 1 \<le> 2147483647 \<Longrightarrow> (1 + word_of_nat d :: 32 word) \<noteq> 1"
proof
  assume p: "0 < d" and b: "d + 1 \<le> 2147483647" and "(1 + word_of_nat d :: 32 word) = 1"
  then have "(word_of_nat d :: 32 word) = 0" by simp
  then have "2 ^ LENGTH(32) dvd d" by (simp only: word_of_nat_eq_0_iff)
  then have "(2 :: nat) ^ LENGTH(32) \<le> d" using p by (rule dvd_imp_le)
  then show False using b by simp
qed

lemma depth_down: "0 < d \<Longrightarrow> (1 + word_of_nat d - 1 :: 32 word) = 1 + word_of_nat (d - 1)"
  by (cases d) simp_all

lemma inside_take: "inside d cs \<Longrightarrow> inside d (take n cs)"
proof (induction cs arbitrary: d n)
  case Nil
  show ?case by simp
next
  case (Cons c cs)
  then show ?case by (cases n) (auto split: if_splits)
qed

lemma held_submitted:
  "m_blockForced p \<Longrightarrow>
   fst (submitted c p w) = p\<lparr>m_commands := m_commands p @ [c]\<rparr> \<and>
   flushed (trace (snd (submitted c p w))) = flushed (trace w)"
  by (simp add: submitted_def Let_def trace_notify flushed_append)

lemma block_body:
  assumes "m_commandProcessor h = Some p" and "m_blockForced p" and "synced p w"
    and "m_blockDepth h = 1 + word_of_nat d" and "d + 1 \<le> 2147483647"
    and "inside d body"
  shows "\<exists>h' w' p'.
     receive_loop body h w = Inr (h', w') \<and>
     m_commandProcessor h' = Some p' \<and> m_blockForced p' \<and> synced p' w' \<and>
     m_commands p' = m_commands p @ filter passthrough body \<and>
     m_subscribers p' = m_subscribers p \<and>
     m_blockDepth h' = 1 + word_of_nat (level d body) \<and>
     flushed (trace w') = flushed (trace w) \<and>
     (\<forall>s. alive w' s = alive w s)"
  using assms
proof (induction body arbitrary: h p w d)
  case Nil
  then show ?case by simp
next
  case (Cons c body)
  show ?case
  proof (cases "cmd_text c = START_BLOCK")
    case True
    have ne: "m_blockDepth h \<noteq> 0"
      using depth_not_zero [OF Cons.prems(5)] Cons.prems(4) by simp
    have step: "BatchConsoleInput_ProcessCommand c h w =
        Inr (h\<lparr>m_blockDepth := m_blockDepth h + 1\<rparr>, w)"
      using open_other [OF Cons.prems(1) True ne] .
    have b: "Suc d + 1 \<le> 2147483647" and ins: "inside (Suc d) body"
      using Cons.prems(6) True by simp_all
    have dep: "m_blockDepth (h\<lparr>m_blockDepth := m_blockDepth h + 1\<rparr>) = 1 + word_of_nat (Suc d)"
      using Cons.prems(4) by simp
    have pr: "m_commandProcessor (h\<lparr>m_blockDepth := m_blockDepth h + 1\<rparr>) = Some p"
      using Cons.prems(1) by simp
    from Cons.IH [OF pr Cons.prems(2,3) dep b ins]
    show ?thesis using step True by (simp add: passthrough_def)
  next
    case notopen: False
    show ?thesis
    proof (cases "cmd_text c = END_BLOCK")
      case True
      have d: "0 < d" and ins: "inside (d - 1) body"
        using Cons.prems(6) True notopen by simp_all
      have ne: "m_blockDepth h \<noteq> 1"
        using depth_not_one [OF d Cons.prems(5)] Cons.prems(4) by simp
      have step: "BatchConsoleInput_ProcessCommand c h w =
          Inr (h\<lparr>m_blockDepth := m_blockDepth h - 1\<rparr>, w)"
        using close_other [OF Cons.prems(1) True ne] .
      have dep: "m_blockDepth (h\<lparr>m_blockDepth := m_blockDepth h - 1\<rparr>) =
          1 + word_of_nat (d - 1)"
        using Cons.prems(4) depth_down [OF d] by simp
      have b: "d - 1 + 1 \<le> 2147483647" using Cons.prems(5) by simp
      have pr: "m_commandProcessor (h\<lparr>m_blockDepth := m_blockDepth h - 1\<rparr>) = Some p"
        using Cons.prems(1) by simp
      from Cons.IH [OF pr Cons.prems(2,3) dep b ins]
      show ?thesis using step True notopen by (simp add: passthrough_def)
    next
      case False
      have pt: "passthrough c" using notopen False by (simp add: passthrough_def)
      define p1 where "p1 = fst (submitted c p w)"
      define w1 where "w1 = snd (submitted c p w)"
      define h1 where "h1 = h\<lparr>m_commandProcessor := Some p1\<rparr>"
      have step: "BatchConsoleInput_ProcessCommand c h w = Inr (h1, w1)"
        using line_passthrough [OF Cons.prems(1) pt] by (simp add: h1_def p1_def w1_def)
      have p1: "p1 = p\<lparr>m_commands := m_commands p @ [c]\<rparr>"
        and fl: "flushed (trace w1) = flushed (trace w)"
        using held_submitted [OF Cons.prems(2), of c w] by (simp_all add: p1_def w1_def)
      have al: "\<And>s. alive w1 s = alive w s"
        by (simp add: w1_def alive_submitted)
      have a: "m_commandProcessor h1 = Some p1" by (simp add: h1_def)
      have b: "m_blockForced p1" using Cons.prems(2) by (simp add: p1)
      have sy: "synced p1 w1" by (simp add: p1_def w1_def synced_submitted)
      have c': "m_blockDepth h1 = 1 + word_of_nat d" using Cons.prems(4) by (simp add: h1_def)
      have ins: "inside d body" using Cons.prems(6) notopen False by simp
      from Cons.IH [OF a b sy c' Cons.prems(5) ins]
      show ?thesis using step notopen False pt fl al by (simp add: p1)
    qed
  qed
qed

section \<open>The teardown of the session\<close>

lemma heap_released:
  "foldl (\<lambda>hp ob. hp(ob := None)) hp xs x = (if x \<in> set xs then None else hp x)"
  by (induction xs arbitrary: hp) auto

lemma threads_gone: "(\<And>s. s \<in> set ss \<Longrightarrow> hp s = None) \<Longrightarrow> threads hp ss = []"
  by (induction ss) auto

lemma session_destroy:
  assumes "m_commandProcessor h = Some p" and "synced p w"
  shows "\<exists>w' es. BatchConsoleInput_destroy h w = Inr w' \<and> trace w' = trace w @ es \<and>
           list_all in_range es"
proof -
  define w1 where "w1 = w\<lparr>heap := foldl (\<lambda>hp ob. hp(ob := None)) (heap w) (m_output h)\<rparr>"
  have sy: "synced p w1"
    using assms(2) by (auto simp: synced_def w1_def heap_released list_all_iff)
  have tr: "trace w1 = trace w" by (simp add: w1_def)
  obtain es where es: "trace (snd (dumped p w1)) = trace w1 @ es"
    by (simp add: trace_dumped)
  have des: "list_all in_range es"
    using in_range_dumped [OF sy] since_append [OF es] by simp
  have "BatchCommandProcessor_destroy p w1 =
      (if m_blockForced p then Inr (release_all p w1, w1)
       else Inr (release_all (fst (dumped p w1)) (snd (dumped p w1)), snd (dumped p w1)))"
    by (simp add: BatchCommandProcessor_destroy_def DumpBatch_synced [OF sy] split_beta)
  then have "BatchConsoleInput_destroy h w =
      (if m_blockForced p then Inr w1 else Inr (snd (dumped p w1)))"
    using assms(1) by (simp add: BatchConsoleInput_destroy_def Let_def w1_def)
  then show ?thesis
    using es des tr by auto
qed

lemma session_destroy_no_thread:
  assumes "m_commandProcessor h = Some p" and "set (m_subscribers p) \<subseteq> set (m_output h)"
  shows "\<exists>w'. BatchConsoleInput_destroy h w = Inr w' \<and>
     trace w' =
       trace w @ (if m_blockForced p then []
                  else (if m_commands p = [] then [] else [Dumped (m_commands p) []])
                    @ [Notified [] []])"
proof -
  define w1 where "w1 = w\<lparr>heap := foldl (\<lambda>hp ob. hp(ob := None)) (heap w) (m_output h)\<rparr>"
  have gone: "heap w1 s = None" if "s \<in> set (m_subscribers p)" for s
    using that assms(2) by (auto simp: w1_def heap_released)
  have th: "threads (heap w1) (m_subscribers p) = []"
    using gone by (rule threads_gone)
  have li: "filter (alive w1) (m_subscribers p) = []"
    using gone by (auto simp: alive_def filter_empty_conv)
  have sy: "synced p w1"
    using gone by (auto simp: synced_def list_all_iff)
  have tr: "trace w1 = trace w" by (simp add: w1_def)
  have "BatchCommandProcessor_destroy p w1 =
      (if m_blockForced p then Inr (release_all p w1, w1)
       else Inr (release_all (fst (dumped p w1)) (snd (dumped p w1)), snd (dumped p w1)))"
    by (simp add: BatchCommandProcessor_destroy_def DumpBatch_synced [OF sy] split_beta)
  then have "BatchConsoleInput_destroy h w =
      (if m_blockForced p then Inr w1 else Inr (snd (dumped p w1)))"
    using assms(1) by (simp add: BatchConsoleInput_destroy_def Let_def w1_def)
  then show ?thesis
    using th li tr by (auto simp: trace_dumped)
qed

lemma wired_session_synced:
  "m_commandProcessor (fst (BatchConsoleInput_init n)) = Some p \<Longrightarrow>
   synced p (snd (BatchConsoleInput_init n)) \<and> m_subscribers p = [0, 1]"
  by (auto simp: BatchConsoleInput_init_def BatchCommandProcessor_init_def synced_def Let_def)

section \<open>The block depth\<close>

text \<open>
  C1, as the code has it. The depth is a signed counter of 32 bits with no guard:
  every open marker adds one and every close marker takes one away, whatever the
  depth is. After any sequence of lines the depth is the depth before, plus the number
  of open markers, minus the number of close markers, in the arithmetic of the
  counter; where that number fits an \<open>int\<close> it is the depth, and it is negative when
  the close markers are more. A close marker at depth 0 leaves the depth at -1; it
  triggers no flush and no hold change: processor, subscribers and trace stay as they
  are.
\<close>

theorem depth_counts_markers:
  assumes "m_commandProcessor h = Some p" and "synced p w"
  shows "\<exists>h' w'. receive_loop cs h w = Inr (h', w') \<and>
     m_blockDepth h' =
       m_blockDepth h + word_of_nat (length (filter (\<lambda>c. cmd_text c = START_BLOCK) cs))
         - word_of_nat (length (filter (\<lambda>c. cmd_text c = END_BLOCK) cs)) \<and>
     (- 2147483648 \<le> sint (m_blockDepth h)
          + int (length (filter (\<lambda>c. cmd_text c = START_BLOCK) cs))
          - int (length (filter (\<lambda>c. cmd_text c = END_BLOCK) cs)) \<and>
      sint (m_blockDepth h)
          + int (length (filter (\<lambda>c. cmd_text c = START_BLOCK) cs))
          - int (length (filter (\<lambda>c. cmd_text c = END_BLOCK) cs)) \<le> 2147483647 \<longrightarrow>
      sint (m_blockDepth h') =
        sint (m_blockDepth h)
          + int (length (filter (\<lambda>c. cmd_text c = START_BLOCK) cs))
          - int (length (filter (\<lambda>c. cmd_text c = END_BLOCK) cs))) \<and>
     (cmd_text c = END_BLOCK \<and> m_blockDepth h = 0 \<longrightarrow>
        BatchConsoleInput_ProcessCommand c h w = Inr (h\<lparr>m_blockDepth := - 1\<rparr>, w))"
proof -
  obtain h' w' where run: "receive_loop cs h w = Inr (h', w')"
    and d: "m_blockDepth h' =
       m_blockDepth h + word_of_nat (length (filter (\<lambda>c. cmd_text c = START_BLOCK) cs))
         - word_of_nat (length (filter (\<lambda>c. cmd_text c = END_BLOCK) cs))"
    using session_run [OF assms, of cs] by blast
  have "BatchConsoleInput_ProcessCommand c h w = Inr (h\<lparr>m_blockDepth := - 1\<rparr>, w)"
    if "cmd_text c = END_BLOCK" and "m_blockDepth h = 0"
    using close_other [OF assms(1) that(1), of w] that(2) by simp
  then show ?thesis
    using run d sint_depth [of "m_blockDepth h"] by simp
qed

text \<open>
  The wired session, three lines: a close marker first (depth -1), then an open marker
  (depth 0 again) and a command.
\<close>

theorem depth_counts_markers_witness:
  "(\<exists>p. m_commandProcessor (fst (BatchConsoleInput_init 3)) = Some p \<and>
        synced p (snd (BatchConsoleInput_init 3))) \<and>
   (\<exists>h' w'. receive_loop [cmd ''}'', cmd ''{'', cmd ''a'']
        (fst (BatchConsoleInput_init 3)) (snd (BatchConsoleInput_init 3)) = Inr (h', w') \<and>
      m_blockDepth h' = 0) \<and>
   (\<exists>h' w'. receive_loop [cmd ''}'']
        (fst (BatchConsoleInput_init 3)) (snd (BatchConsoleInput_init 3)) = Inr (h', w') \<and>
      sint (m_blockDepth h') = - 1) \<and>
   BatchConsoleInput_ProcessCommand (cmd ''}'')
       (fst (BatchConsoleInput_init 3)) (snd (BatchConsoleInput_init 3)) =
     Inr ((fst (BatchConsoleInput_init 3))\<lparr>m_blockDepth := - 1\<rparr>,
          snd (BatchConsoleInput_init 3))"
proof -
  define p where "p = \<lparr>m_bulkSize = 3, m_blockForced = False, m_commands = [],
      m_subscribers = [0, 1]\<rparr>"
  have hyps: "m_commandProcessor (fst (BatchConsoleInput_init 3)) = Some p"
      "synced p (snd (BatchConsoleInput_init 3))"
    by (simp_all add: p_def synced_def engine_defs session_defs)
  show ?thesis
    using hyps
      depth_counts_markers [OF hyps, of "[cmd ''}'', cmd ''{'', cmd ''a'']" "cmd ''}''"]
      depth_counts_markers [OF hyps, of "[cmd ''}'']" "cmd ''}''"]
    by (simp add: START_BLOCK_def END_BLOCK_def cmd_def BatchConsoleInput_init_def Let_def
        del: receive_loop.simps) auto
qed

text \<open>
  C1 as stated fails: in the wired session a close marker at depth 0 takes the depth
  below zero.
\<close>

theorem unmatched_close_goes_negative:
  "m_blockDepth (fst (BatchConsoleInput_init 3)) = 0 \<and>
   (case receive_loop [cmd ''}'']
      (fst (BatchConsoleInput_init 3)) (snd (BatchConsoleInput_init 3)) of
      Inl e \<Rightarrow> False
    | Inr (h, w) \<Rightarrow> sint (m_blockDepth h) = - 1 \<and> m_blockDepth h = - 1 \<and> trace w = [])"
  by (simp add: engine_defs session_defs)

section \<open>Blocks\<close>

text \<open>
  C6, as the code has it. The session, its subscribers in step, is at depth 0 when it
  reads an open marker, then a properly nested body (nested no deeper than an \<open>int\<close>
  counts) and the close marker that matches: the pair is an outermost one. However
  many commands the body has and whatever the bulk size, nothing is flushed after any
  part of the body. At the close marker there is exactly one flush if the body has a
  command at all, and none if it has not: one fan-out in which every live subscriber
  runs its flush action holding all the commands of the body, in order. Afterwards the
  subscribers hold the empty batch and the session is back at depth 0.
\<close>

theorem block_holds_until_close:
  assumes "m_commandProcessor h = Some p" and "synced p w" and "m_blockDepth h = 0"
    and "cmd_text op = START_BLOCK" and "cmd_text cl = END_BLOCK"
    and "properly_nested body"
  shows "\<exists>h1 w1.
     BatchConsoleInput_ProcessCommand op h w = Inr (h1, w1) \<and>
     (\<forall>n. \<exists>h2 w2. receive_loop (take n body) h1 w1 = Inr (h2, w2) \<and>
            flushed (trace w2) = flushed (trace w1)) \<and>
     (\<exists>h2 w2 h3 w3.
        receive_loop body h1 w1 = Inr (h2, w2) \<and>
        BatchConsoleInput_ProcessCommand cl h2 w2 = Inr (h3, w3) \<and>
        trace w3 =
          trace w2
          @ (if filter passthrough body = [] then []
             else [Dumped (filter passthrough body) (threads (heap w2) (m_subscribers p))])
          @ [Notified (filter (alive w) (m_subscribers p)) []] \<and>
        map fst (threads (heap w2) (m_subscribers p)) = filter (alive w) (m_subscribers p) \<and>
        holding (filter passthrough body) (threads (heap w2) (m_subscribers p)) \<and>
        holding [] (threads (heap w3) (m_subscribers p)) \<and>
        map fst (threads (heap w3) (m_subscribers p)) = filter (alive w) (m_subscribers p) \<and>
        m_blockDepth h3 = 0)"
proof -
  define p1 where "p1 = p\<lparr>m_blockForced := True, m_commands := []\<rparr>"
  define w1 where "w1 = snd (dumped p w)"
  define h1 where "h1 = h\<lparr>m_blockDepth := 1, m_commandProcessor := Some p1\<rparr>"
  have step1: "BatchConsoleInput_ProcessCommand op h w = Inr (h1, w1)"
    by (simp add: open_outermost [OF assms(1,4,3)] StartBlock_synced [OF assms(2)]
        h1_def p1_def w1_def)
  have a: "m_commandProcessor h1 = Some p1" by (simp add: h1_def)
  have b: "m_blockForced p1" by (simp add: p1_def)
  have sy: "synced p1 w1" unfolding p1_def w1_def by (rule synced_cleared)
  have c: "m_blockDepth h1 = 1 + word_of_nat 0" by (simp add: h1_def)
  have bd: "(0 :: nat) + 1 \<le> 2147483647" by simp
  have ins: "inside 0 body" and lev: "level 0 body = 0"
    using assms(6) by (simp_all add: properly_nested_def)
  have al1: "alive w1 s = alive w s" for s by (simp add: w1_def alive_dumped)
  have between: "\<exists>h2 w2. receive_loop (take n body) h1 w1 = Inr (h2, w2) \<and>
      flushed (trace w2) = flushed (trace w1)" for n
    using block_body [OF a b sy c bd inside_take [OF ins, of n]] by blast
  obtain h2 w2 p2 where run: "receive_loop body h1 w1 = Inr (h2, w2)"
    and p2: "m_commandProcessor h2 = Some p2" "m_blockForced p2" "synced p2 w2"
      "m_commands p2 = filter passthrough body" "m_subscribers p2 = m_subscribers p"
      "m_blockDepth h2 = 1" and al2: "\<forall>s. alive w2 s = alive w s"
    using block_body [OF a b sy c bd ins] lev al1 by (auto simp: p1_def)
  define w3 where "w3 = snd (dumped p2 w2)"
  define h3 where "h3 = h2\<lparr>m_blockDepth := 0,
      m_commandProcessor := Some (p2\<lparr>m_blockForced := False, m_commands := []\<rparr>)\<rparr>"
  have step3: "BatchConsoleInput_ProcessCommand cl h2 w2 = Inr (h3, w3)"
    by (simp add: close_outermost [OF p2(1) assms(5) p2(6)] FinishBlock_synced [OF p2(3)]
        h3_def w3_def)
  have live2: "filter (alive w2) (m_subscribers p) = filter (alive w) (m_subscribers p)"
    using al2 by (simp cong: filter_cong)
  have t3: "trace w3 =
      trace w2
      @ (if filter passthrough body = [] then []
         else [Dumped (filter passthrough body) (threads (heap w2) (m_subscribers p))])
      @ [Notified (filter (alive w) (m_subscribers p)) []]"
    by (simp add: w3_def trace_dumped p2 live2)
  have m2: "map fst (threads (heap w2) (m_subscribers p)) = filter (alive w) (m_subscribers p)"
    by (simp add: map_fst_threads live2)
  have ho2: "holding (filter passthrough body) (threads (heap w2) (m_subscribers p))"
    using threads_synced [OF p2(3)] by (simp add: p2)
  have ho3: "holding [] (threads (heap w3) (m_subscribers p))"
    using threads_synced [OF synced_dumped [of p2 w2]] by (simp add: fst_dumped w3_def p2)
  have m3: "map fst (threads (heap w3) (m_subscribers p)) = filter (alive w) (m_subscribers p)"
    by (simp add: map_fst_threads w3_def alive_dumped [abs_def] live2)
  have d3: "m_blockDepth h3 = 0" by (simp add: h3_def)
  show ?thesis
    using step1 between run step3 t3 m2 ho2 ho3 m3 d3 by blast
qed

text \<open>
  The wired session with bulk size 2 and the block \<open>{ a { b } c }\<close>: three commands,
  no flush before the last close marker, and there one fan-out in which both
  subscribers hold \<open>[a, b, c]\<close>.
\<close>

theorem block_holds_until_close_witness:
  "properly_nested [cmd ''a'', cmd ''{'', cmd ''b'', cmd ''}'', cmd ''c''] \<and>
   (\<exists>h2 w2. receive_loop [cmd ''{'', cmd ''a'', cmd ''{'', cmd ''b'', cmd ''}'', cmd ''c'']
        (fst (BatchConsoleInput_init 2)) (snd (BatchConsoleInput_init 2)) = Inr (h2, w2) \<and>
      flushed (trace w2) = []) \<and>
   (\<exists>h3 w3. receive_loop
        [cmd ''{'', cmd ''a'', cmd ''{'', cmd ''b'', cmd ''}'', cmd ''c'', cmd ''}'']
        (fst (BatchConsoleInput_init 2)) (snd (BatchConsoleInput_init 2)) = Inr (h3, w3) \<and>
      trace w3 =
        [Notified [0, 1] [],
         Notified [0, 1] [cmd ''a''],
         Notified [0, 1] [cmd ''a'', cmd ''b''],
         Notified [0, 1] [cmd ''a'', cmd ''b'', cmd ''c''],
         Dumped [cmd ''a'', cmd ''b'', cmd ''c'']
           [(0, ReportWriter [cmd ''a'', cmd ''b'', cmd ''c'']),
            (1, ConsoleOutput [cmd ''a'', cmd ''b'', cmd ''c''])],
         Notified [0, 1] []] \<and>
      m_blockDepth h3 = 0)"
proof -
  define p where "p = \<lparr>m_bulkSize = 2, m_blockForced = False, m_commands = [],
      m_subscribers = [0, 1]\<rparr>"
  have hyps: "m_commandProcessor (fst (BatchConsoleInput_init 2)) = Some p"
      "synced p (snd (BatchConsoleInput_init 2))"
      "m_blockDepth (fst (BatchConsoleInput_init 2)) = 0"
      "cmd_text (cmd ''{'') = START_BLOCK" "cmd_text (cmd ''}'') = END_BLOCK"
      "properly_nested [cmd ''a'', cmd ''{'', cmd ''b'', cmd ''}'', cmd ''c'']"
    by (simp_all add: p_def synced_def engine_defs session_defs)
  have run: "\<exists>h3 w3. receive_loop
        [cmd ''{'', cmd ''a'', cmd ''{'', cmd ''b'', cmd ''}'', cmd ''c'', cmd ''}'']
        (fst (BatchConsoleInput_init 2)) (snd (BatchConsoleInput_init 2)) = Inr (h3, w3) \<and>
      trace w3 =
        [Notified [0, 1] [],
         Notified [0, 1] [cmd ''a''],
         Notified [0, 1] [cmd ''a'', cmd ''b''],
         Notified [0, 1] [cmd ''a'', cmd ''b'', cmd ''c''],
         Dumped [cmd ''a'', cmd ''b'', cmd ''c'']
           [(0, ReportWriter [cmd ''a'', cmd ''b'', cmd ''c'']),
            (1, ConsoleOutput [cmd ''a'', cmd ''b'', cmd ''c''])],
         Notified [0, 1] []] \<and>
      m_blockDepth h3 = 0"
    by (simp add: engine_defs session_defs)
  obtain h1 w1 where op: "BatchConsoleInput_ProcessCommand (cmd ''{'')
        (fst (BatchConsoleInput_init 2)) (snd (BatchConsoleInput_init 2)) = Inr (h1, w1)"
    and held: "\<forall>n. \<exists>h2 w2.
        receive_loop (take n [cmd ''a'', cmd ''{'', cmd ''b'', cmd ''}'', cmd ''c'']) h1 w1 =
          Inr (h2, w2) \<and>
        flushed (trace w2) = flushed (trace w1)"
    using block_holds_until_close [OF hyps] by blast
  have "flushed (trace w1) = []"
    using op by (auto simp: engine_defs session_defs)
  then obtain h2 w2 where
    "receive_loop (take 5 [cmd ''a'', cmd ''{'', cmd ''b'', cmd ''}'', cmd ''c'']) h1 w1 =
       Inr (h2, w2)" and "flushed (trace w2) = []"
    using held by metis
  then have "\<exists>h2 w2. receive_loop [cmd ''{'', cmd ''a'', cmd ''{'', cmd ''b'', cmd ''}'', cmd ''c'']
        (fst (BatchConsoleInput_init 2)) (snd (BatchConsoleInput_init 2)) = Inr (h2, w2) \<and>
      flushed (trace w2) = []"
    using op by (simp del: BatchConsoleInput_init_def)
  then show ?thesis
    using hyps(6) run by blast
qed

text \<open>
  C6 as stated fails for a pair that is not opened at depth 0. After a close marker
  with no open marker before it the depth is -1, the next open marker brings it to 0
  without \<open>StartBlock\<close>, and the commands of that block are flushed by size (bulk size
  2, lines \<open>} { a b }\<close>: \<open>[a, b]\<close> is flushed before the last close marker, which
  flushes nothing). And the close marker of a pair inside another block flushes nothing
  (lines \<open>{ { a }\<close>).
\<close>

theorem block_not_opened_at_depth_zero:
  "properly_nested [cmd ''a'', cmd ''b''] \<and>
   (case receive_loop [cmd ''}'', cmd ''{'', cmd ''a'', cmd ''b'']
      (fst (BatchConsoleInput_init 2)) (snd (BatchConsoleInput_init 2)) of
      Inl e \<Rightarrow> False
    | Inr (h, w) \<Rightarrow> flushed (trace w) = [[cmd ''a'', cmd ''b'']]) \<and>
   (case receive_loop [cmd ''}'', cmd ''{'', cmd ''a'', cmd ''b'', cmd ''}'']
      (fst (BatchConsoleInput_init 2)) (snd (BatchConsoleInput_init 2)) of
      Inl e \<Rightarrow> False
    | Inr (h, w) \<Rightarrow> flushed (trace w) = [[cmd ''a'', cmd ''b'']]) \<and>
   (case receive_loop [cmd ''{'', cmd ''{'', cmd ''a'', cmd ''}'']
      (fst (BatchConsoleInput_init 2)) (snd (BatchConsoleInput_init 2)) of
      Inl e \<Rightarrow> False
    | Inr (h, w) \<Rightarrow> flushed (trace w) = [])"
  by (simp add: engine_defs session_defs)

text \<open>
  C9, as the code has it. The session is at depth 0 and reads open, open, close,
  close. The first open marker runs \<open>StartBlock\<close> (depth 1), the second only counts
  (depth 2), the first close marker only counts (depth 1), the last one runs
  \<open>FinishBlock\<close> (depth 0): each hold transition runs once, for the outer pair. Each of
  the two runs a flush. The one at the outer open marker delivers what was pending
  before the block, if anything was; the one at the outer close marker has nothing to
  deliver, the block having no command, so no flush action runs there and it cannot
  fail. With the subscribers in step the four lines are processed without an error.
\<close>

theorem nested_markers_outer_pair_only:
  assumes "m_commandProcessor h = Some p" and "m_blockDepth h = 0"
    and "cmd_text o1 = START_BLOCK" and "cmd_text o2 = START_BLOCK"
    and "cmd_text c1 = END_BLOCK" and "cmd_text c2 = END_BLOCK"
  shows "receive_loop [o1] h w =
           (case StartBlock p w of
              Inl e \<Rightarrow> Inl e
            | Inr (p1, w1) \<Rightarrow>
                Inr (h\<lparr>m_blockDepth := 1, m_commandProcessor := Some p1\<rparr>, w1)) \<and>
         receive_loop [o1, o2] h w =
           (case StartBlock p w of
              Inl e \<Rightarrow> Inl e
            | Inr (p1, w1) \<Rightarrow>
                Inr (h\<lparr>m_blockDepth := 2, m_commandProcessor := Some p1\<rparr>, w1)) \<and>
         receive_loop [o1, o2, c1] h w =
           (case StartBlock p w of
              Inl e \<Rightarrow> Inl e
            | Inr (p1, w1) \<Rightarrow>
                Inr (h\<lparr>m_blockDepth := 1, m_commandProcessor := Some p1\<rparr>, w1)) \<and>
         receive_loop [o1, o2, c1, c2] h w =
           (case StartBlock p w of
              Inl e \<Rightarrow> Inl e
            | Inr (p1, w1) \<Rightarrow>
                (case FinishBlock p1 w1 of
                   Inl e \<Rightarrow> Inl e
                 | Inr (p2, w2) \<Rightarrow>
                     Inr (h\<lparr>m_blockDepth := 0, m_commandProcessor := Some p2\<rparr>, w2))) \<and>
         (case receive_loop [o1, o2, c1, c2] h w of
            Inl e \<Rightarrow> StartBlock p w = Inl e
          | Inr (h', w') \<Rightarrow>
              flushed (trace w') =
                flushed (trace w) @ (if m_commands p = [] then [] else [m_commands p])) \<and>
         (synced p w \<longrightarrow> (\<exists>h' w'. receive_loop [o1, o2, c1, c2] h w = Inr (h', w')))"
proof (cases "StartBlock p w")
  case (Inl e)
  have s1: "BatchConsoleInput_ProcessCommand o1 h w = Inl e"
    by (simp add: open_outermost [OF assms(1,3,2)] Inl)
  have "\<not> synced p w"
    using StartBlock_synced [of p w] Inl by auto
  then show ?thesis by (simp add: s1 Inl)
next
  case (Inr r)
  obtain p1 w1 where r: "r = (p1, w1)" by (cases r)
  define h1 where "h1 = h\<lparr>m_blockDepth := 1, m_commandProcessor := Some p1\<rparr>"
  have st: "StartBlock p w = Inr (p1, w1)" using Inr r by simp
  have d: "dumped (p\<lparr>m_blockForced := True\<rparr>) w = (p1, w1)"
    using DumpBatch_cases [of "p\<lparr>m_blockForced := True\<rparr>" w] st by (simp add: StartBlock_def)
  have "p1 = fst (dumped (p\<lparr>m_blockForced := True\<rparr>) w)" by (simp add: d)
  then have p1: "m_commands p1 = []"
    by (simp add: fst_dumped)
  have "w1 = snd (dumped (p\<lparr>m_blockForced := True\<rparr>) w)" by (simp add: d)
  then have t1: "trace w1 =
      trace w @ (if m_commands p = [] then []
                 else [Dumped (m_commands p) (threads (heap w) (m_subscribers p))])
        @ [Notified (filter (alive w) (m_subscribers p)) []]"
    by (simp add: trace_dumped)
  obtain p2 w2 where f: "dumped (p1\<lparr>m_blockForced := False\<rparr>) w1 = (p2, w2)"
    by (cases "dumped (p1\<lparr>m_blockForced := False\<rparr>) w1")
  have fi: "FinishBlock p1 w1 = Inr (p2, w2)"
    using DumpBatch_empty [of "p1\<lparr>m_blockForced := False\<rparr>" w1] p1
    by (simp add: FinishBlock_def f)
  have "w2 = snd (dumped (p1\<lparr>m_blockForced := False\<rparr>) w1)"
    by (simp add: f)
  then have t2: "flushed (trace w2) = flushed (trace w1)"
    using p1 by (simp add: trace_dumped flushed_append)
  have s1: "BatchConsoleInput_ProcessCommand o1 h w = Inr (h1, w1)"
    by (simp add: open_outermost [OF assms(1,3,2)] st h1_def)
  have s2: "BatchConsoleInput_ProcessCommand o2 h1 w1 = Inr (h1\<lparr>m_blockDepth := 2\<rparr>, w1)"
    using open_other [of h1 p1 o2 w1] assms(4) by (simp add: h1_def)
  have s3: "BatchConsoleInput_ProcessCommand c1 (h1\<lparr>m_blockDepth := 2\<rparr>) w1 = Inr (h1, w1)"
    using close_other [of "h1\<lparr>m_blockDepth := 2\<rparr>" p1 c1 w1] assms(5) by (simp add: h1_def)
  have s4: "BatchConsoleInput_ProcessCommand c2 h1 w1 =
      Inr (h1\<lparr>m_blockDepth := 0, m_commandProcessor := Some p2\<rparr>, w2)"
    using close_outermost [of h1 p1 c2 w1] assms(6) by (simp add: h1_def fi)
  show ?thesis
    by (simp add: s1 s2 s3 s4 st fi t2 t1 flushed_append) (simp add: h1_def)
qed

text \<open>
  The wired session with the command \<open>a\<close> pending (bulk size 3): the only flush action
  runs at the outer open marker, with \<open>[a]\<close>.
\<close>

theorem nested_markers_outer_pair_only_witness:
  "(\<exists>h w p. receive_loop [cmd ''a'']
        (fst (BatchConsoleInput_init 3)) (snd (BatchConsoleInput_init 3)) = Inr (h, w) \<and>
      m_commandProcessor h = Some p \<and> m_blockDepth h = 0 \<and> synced p w \<and>
      (\<exists>h' w'. receive_loop [cmd ''{''] h w = Inr (h', w') \<and>
         flushed (trace w') = [[cmd ''a'']] \<and> m_blockDepth h' = 1) \<and>
      (\<exists>h' w'. receive_loop [cmd ''{'', cmd ''{'', cmd ''}'', cmd ''}''] h w = Inr (h', w') \<and>
         flushed (trace w') = [[cmd ''a'']] \<and> m_blockDepth h' = 0))"
proof -
  define p where "p = \<lparr>m_bulkSize = 3, m_blockForced = False,
      m_commands = [cmd ''a''], m_subscribers = [0, 1]\<rparr>"
  define h where "h = \<lparr>m_blockDepth = 0, m_commandProcessor = Some p, m_output = [0, 1]\<rparr>"
  define w where "w = \<lparr>heap = [0 \<mapsto> ReportWriter [cmd ''a''], 1 \<mapsto> ConsoleOutput [cmd ''a'']],
      trace = [Notified [0, 1] [cmd ''a'']]\<rparr>"
  have run: "receive_loop [cmd ''a'']
      (fst (BatchConsoleInput_init 3)) (snd (BatchConsoleInput_init 3)) = Inr (h, w)"
    by (simp add: engine_defs session_defs h_def w_def p_def fun_eq_iff)
  have t: "trace w = [Notified [0, 1] [cmd ''a'']]" by (simp add: w_def)
  have hp: "heap w = [0 \<mapsto> ReportWriter [cmd ''a''], 1 \<mapsto> ConsoleOutput [cmd ''a'']]"
    by (simp add: w_def)
  have hyps: "m_commandProcessor h = Some p" "m_blockDepth h = 0"
      "cmd_text (cmd ''{'') = START_BLOCK" "cmd_text (cmd ''{'') = START_BLOCK"
      "cmd_text (cmd ''}'') = END_BLOCK" "cmd_text (cmd ''}'') = END_BLOCK"
    by (simp_all add: h_def cmd_def START_BLOCK_def END_BLOCK_def)
  have sy: "synced p w" by (simp add: synced_def p_def hp)
  have fl: "flushed (trace w) = []" by (simp add: t)
  have st: "StartBlock p w =
      Inr (p\<lparr>m_blockForced := True, m_commands := []\<rparr>, snd (dumped p w))"
    using sy by (rule StartBlock_synced)
  have fi: "FinishBlock (p\<lparr>m_blockForced := True, m_commands := []\<rparr>) (snd (dumped p w)) =
      Inr (p\<lparr>m_blockForced := False, m_commands := []\<rparr>,
           snd (dumped (p\<lparr>m_blockForced := True, m_commands := []\<rparr>) (snd (dumped p w))))"
    using FinishBlock_synced [OF synced_cleared [where p = p and b = True and w = w]]
    by simp
  have tr: "flushed (trace (snd (dumped p w))) = [[cmd ''a'']]"
    by (simp add: trace_dumped flushed_append fl) (simp add: p_def)
  have tr2: "flushed (trace (snd (dumped (p\<lparr>m_blockForced := True, m_commands := []\<rparr>)
      (snd (dumped p w))))) = [[cmd ''a'']]"
    using tr by (simp add: trace_dumped [of "p\<lparr>m_blockForced := True, m_commands := []\<rparr>"]
        flushed_append)
  show ?thesis
    using nested_markers_outer_pair_only [OF hyps, of w] run hyps(1,2) sy tr tr2
    by (simp add: st fi del: receive_loop.simps)
qed

text \<open>
  C9 as stated fails: in the wired session the four markers alone lead to no flush at
  all. \<open>DumpBatch\<close> runs twice, at the outer open and the outer close marker, each time
  with nothing pending, so no flush action runs.
\<close>

theorem bare_nested_markers_no_flush:
  "(case receive_loop [cmd ''{'', cmd ''{'', cmd ''}'', cmd ''}'']
      (fst (BatchConsoleInput_init 3)) (snd (BatchConsoleInput_init 3)) of
      Inl e \<Rightarrow> False
    | Inr (h, w) \<Rightarrow>
        trace w = [Notified [0, 1] [], Notified [0, 1] []] \<and> flushed (trace w) = [])"
  by (simp add: engine_defs session_defs)

section \<open>The report writer's file name\<close>

text \<open>
  C10. In the wired session, whatever the bulk size and the lines, every line is
  processed without reading out of range, and every fan-out finds each subscriber it
  runs, the \<open>ReportWriter\<close> among them, with a snapshot that is not empty, so that
  \<open>GetFilename\<close> reads element 0 in range. This holds while lines are processed and
  through the teardown of the session.
\<close>

theorem report_writer_reads_in_range:
  "case BatchConsoleInput_init bulkSize of (h0, w0) \<Rightarrow>
     \<exists>h w w'. receive_loop cs h0 w0 = Inr (h, w) \<and>
       list_all in_range (trace w) \<and>
       BatchConsoleInput_destroy h w = Inr w' \<and>
       list_all in_range (trace w')"
proof -
  define h0 where "h0 = fst (BatchConsoleInput_init bulkSize)"
  define w0 where "w0 = snd (BatchConsoleInput_init bulkSize)"
  obtain p0 where p0: "m_commandProcessor h0 = Some p0"
    by (simp add: h0_def BatchConsoleInput_init_def Let_def)
  have sy0: "synced p0 w0"
    using wired_session_synced [of bulkSize p0] p0 by (simp add: h0_def w0_def)
  have t0: "trace w0 = []"
    by (simp add: w0_def BatchConsoleInput_init_def Let_def)
  obtain h w p es where run: "receive_loop cs h0 w0 = Inr (h, w)"
    and p: "m_commandProcessor h = Some p" and sy: "synced p w"
    and t: "trace w = trace w0 @ es" and r: "list_all in_range es"
    using session_run [OF p0 sy0, of cs] by blast
  obtain w' fs where de: "BatchConsoleInput_destroy h w = Inr w'"
    and t': "trace w' = trace w @ fs" and r': "list_all in_range fs"
    using session_destroy [OF p sy] by blast
  have "list_all in_range (trace w)" using t r t0 by simp
  moreover have "list_all in_range (trace w')" using t t' r r' t0 by simp
  ultimately have "\<exists>h w w'. receive_loop cs h0 w0 = Inr (h, w) \<and>
       list_all in_range (trace w) \<and>
       BatchConsoleInput_destroy h w = Inr w' \<and>
       list_all in_range (trace w')"
    using run de by blast
  then show ?thesis
    by (simp add: split_beta h0_def w0_def)
qed

text \<open>
  Bulk size 2 and the lines \<open>a, b\<close>: the one fan-out runs the \<open>ReportWriter\<close> on the
  snapshot \<open>[a, b]\<close>, and it names its file after the time stamp of \<open>a\<close>.
\<close>

theorem report_writer_reads_in_range_witness:
  "(case BatchConsoleInput_init 2 of (h0, w0) \<Rightarrow>
     \<exists>h w w'. receive_loop [cmd ''a'', cmd ''b''] h0 w0 = Inr (h, w) \<and>
       list_all in_range (trace w) \<and>
       BatchConsoleInput_destroy h w = Inr w' \<and>
       list_all in_range (trace w') \<and>
       trace w =
         [Notified [0, 1] [cmd ''a''],
          Notified [0, 1] [cmd ''a'', cmd ''b''],
          Dumped [cmd ''a'', cmd ''b'']
            [(0, ReportWriter [cmd ''a'', cmd ''b'']),
             (1, ConsoleOutput [cmd ''a'', cmd ''b''])],
          Notified [0, 1] []]) \<and>
   Output_ProcessCommand (ReportWriter [cmd ''a'', cmd ''b'']) =
     Inr (FileOut 0 ''bulk: a, b'')"
  using report_writer_reads_in_range [where bulkSize = 2 and cs = "[cmd ''a'', cmd ''b'']"]
  by (simp add: engine_defs session_defs BULK_def Join_def seconds_def)

section \<open>The last batch of a session\<close>

text \<open>
  The destructor of the processor on its own, the subscribers in step. With no block
  forced it flushes what is pending to every subscriber that is still there, each
  holding the pending batch, and only then walks the registry; with a block forced it
  records nothing and only walks the registry.
\<close>

lemma processor_destroy_in_step:
  assumes "synced p w"
  shows "BatchCommandProcessor_destroy p w =
     (if m_blockForced p then Inr (release_all p w, w)
      else Inr (release_all (p\<lparr>m_commands := []\<rparr>) (snd (dumped p w)), snd (dumped p w)))"
    and "trace (snd (dumped p w)) =
       trace w @ (if m_commands p = [] then []
                  else [Dumped (m_commands p) (threads (heap w) (m_subscribers p))])
         @ [Notified (filter (alive w) (m_subscribers p)) []]"
    and "holding (m_commands p) (threads (heap w) (m_subscribers p))"
proof -
  have "fst (dumped p w) = p\<lparr>m_commands := []\<rparr>"
    by (simp add: fst_dumped)
  then show "BatchCommandProcessor_destroy p w =
     (if m_blockForced p then Inr (release_all p w, w)
      else Inr (release_all (p\<lparr>m_commands := []\<rparr>) (snd (dumped p w)), snd (dumped p w)))"
    using DumpBatch_synced [OF assms]
    by (simp add: BatchCommandProcessor_destroy_def split_beta)
  show "trace (snd (dumped p w)) =
       trace w @ (if m_commands p = [] then []
                  else [Dumped (m_commands p) (threads (heap w) (m_subscribers p))])
         @ [Notified (filter (alive w) (m_subscribers p)) []]"
    by (simp add: trace_dumped)
  show "holding (m_commands p) (threads (heap w) (m_subscribers p))"
    using assms by (rule threads_synced)
qed

text \<open>
  C8 does not hold of the session the program runs. Whatever the bulk size and the
  lines, when the teardown of the wired session begins both subscribers are
  registered, there, and hold the pending batch; yet the teardown starts no thread:
  the subscribers are destroyed before the processor, so the last \<open>DumpBatch\<close> of the
  destructor finds no subscriber that locks. With no block forced and commands pending
  the final fan-out has no thread and the final notification reaches nobody: no
  subscriber is given anything, none observes the final flush. With a block forced the
  teardown records nothing.
\<close>

theorem wired_teardown_starts_no_thread:
  "case BatchConsoleInput_init bulkSize of (h0, w0) \<Rightarrow>
     \<exists>h w p w'. receive_loop cs h0 w0 = Inr (h, w) \<and>
       m_commandProcessor h = Some p \<and>
       map fst (threads (heap w) (m_subscribers p)) = [0, 1] \<and>
       holding (m_commands p) (threads (heap w) (m_subscribers p)) \<and>
       BatchConsoleInput_destroy h w = Inr w' \<and>
       since w w' =
         (if m_blockForced p then []
          else (if m_commands p = [] then [] else [Dumped (m_commands p) []])
            @ [Notified [] []]) \<and>
       (\<forall>s. delivered s (since w w') = [])"
proof -
  define h0 where "h0 = fst (BatchConsoleInput_init bulkSize)"
  define w0 where "w0 = snd (BatchConsoleInput_init bulkSize)"
  obtain p0 where p0: "m_commandProcessor h0 = Some p0"
    by (simp add: h0_def BatchConsoleInput_init_def Let_def)
  have sy0: "synced p0 w0" and s0: "m_subscribers p0 = [0, 1]"
    using wired_session_synced [of bulkSize p0] p0 by (simp_all add: h0_def w0_def)
  have o0: "m_output h0 = [0, 1]"
    by (simp add: h0_def BatchConsoleInput_init_def Let_def)
  have a0: "alive w0 0" "alive w0 1"
    by (simp_all add: w0_def alive_def BatchConsoleInput_init_def Let_def)
  obtain h w p where run: "receive_loop cs h0 w0 = Inr (h, w)"
    and p: "m_commandProcessor h = Some p" and sy: "synced p w"
    and s: "m_subscribers p = m_subscribers p0" and ou: "m_output h = m_output h0"
    and al: "\<forall>s. alive w s = alive w0 s"
    using session_run [OF p0 sy0, of cs] by blast
  have sub: "set (m_subscribers p) \<subseteq> set (m_output h)"
    by (simp add: s s0 ou o0)
  have "filter (alive w) [0, 1] = [0, 1]"
    using a0 al by simp
  then have live: "map fst (threads (heap w) (m_subscribers p)) = [0, 1]"
    by (simp only: map_fst_threads s s0)
  have ho: "holding (m_commands p) (threads (heap w) (m_subscribers p))"
    using sy by (rule threads_synced)
  obtain w' where de: "BatchConsoleInput_destroy h w = Inr w'"
    and t': "trace w' =
       trace w @ (if m_blockForced p then []
                  else (if m_commands p = [] then [] else [Dumped (m_commands p) []])
                    @ [Notified [] []])"
    using session_destroy_no_thread [OF p sub] by blast
  have si: "since w w' =
         (if m_blockForced p then []
          else (if m_commands p = [] then [] else [Dumped (m_commands p) []])
            @ [Notified [] []])"
    using t' by (rule since_append)
  have no: "delivered s (since w w') = []" for s
    by (simp add: si)
  have "\<exists>h w p w'. receive_loop cs h0 w0 = Inr (h, w) \<and>
       m_commandProcessor h = Some p \<and>
       map fst (threads (heap w) (m_subscribers p)) = [0, 1] \<and>
       holding (m_commands p) (threads (heap w) (m_subscribers p)) \<and>
       BatchConsoleInput_destroy h w = Inr w' \<and>
       since w w' =
         (if m_blockForced p then []
          else (if m_commands p = [] then [] else [Dumped (m_commands p) []])
            @ [Notified [] []]) \<and>
       (\<forall>s. delivered s (since w w') = [])"
    using run p live ho de no
    by (intro exI [of _ h] exI [of _ w] exI [of _ p] exI [of _ w']) (simp add: si)
  then show ?thesis
    by (simp add: split_beta h0_def w0_def)
qed

text \<open>
  Bulk size 3. After the line \<open>a\<close> both subscribers hold \<open>[a]\<close>; the teardown records a
  fan-out for \<open>[a]\<close> without a thread and a notification that reaches nobody. After the
  lines \<open>{\<close> and \<open>a\<close> a block is forced, and the teardown records nothing.
\<close>

lemma wired_teardown_pending_line:
  "(case BatchConsoleInput_init 3 of (h0, w0) \<Rightarrow>
     (case receive_loop [cmd ''a''] h0 w0 of
        Inl e \<Rightarrow> False
      | Inr (h, w) \<Rightarrow>
          heap w 0 = Some (ReportWriter [cmd ''a'']) \<and>
          heap w 1 = Some (ConsoleOutput [cmd ''a'']) \<and>
          flushed (trace w) = [] \<and>
          BatchConsoleInput_destroy h w =
            Inr \<lparr>heap = Map.empty,
                 trace = trace w @ [Dumped [cmd ''a''] [], Notified [] []]\<rparr>)) \<and>
   (case BatchConsoleInput_init 3 of (h0, w0) \<Rightarrow>
     (case receive_loop [cmd ''{'', cmd ''a''] h0 w0 of
        Inl e \<Rightarrow> False
      | Inr (h, w) \<Rightarrow>
          flushed (trace w) = [] \<and>
          BatchConsoleInput_destroy h w = Inr \<lparr>heap = Map.empty, trace = trace w\<rparr>))"
  by (simp add: engine_defs session_defs fun_eq_iff)

text \<open>
  C3 does not hold of the session the program runs. Bulk size 3 and the lines
  \<open>a, b, c, d\<close>: \<open>[a, b, c]\<close> is flushed by size to both subscribers and \<open>d\<close> stays
  pending. At the teardown the fan-out for \<open>[d]\<close> has no thread, the subscribers being
  gone already: \<open>d\<close> reaches no subscriber, and the batches each subscriber was given
  make up \<open>a, b, c\<close>, not the input.
\<close>

theorem wired_session_loses_last_batch:
  "case BatchConsoleInput_init 3 of (h0, w0) \<Rightarrow>
     (case receive_loop [cmd ''a'', cmd ''b'', cmd ''c'', cmd ''d''] h0 w0 of
        Inl e \<Rightarrow> False
      | Inr (h, w) \<Rightarrow>
          trace w =
            [Notified [0, 1] [cmd ''a''],
             Notified [0, 1] [cmd ''a'', cmd ''b''],
             Notified [0, 1] [cmd ''a'', cmd ''b'', cmd ''c''],
             Dumped [cmd ''a'', cmd ''b'', cmd ''c'']
               [(0, ReportWriter [cmd ''a'', cmd ''b'', cmd ''c'']),
                (1, ConsoleOutput [cmd ''a'', cmd ''b'', cmd ''c''])],
             Notified [0, 1] [],
             Notified [0, 1] [cmd ''d'']] \<and>
          map_option m_commands (m_commandProcessor h) = Some [cmd ''d''] \<and>
          (case BatchConsoleInput_destroy h w of
             Inl e \<Rightarrow> False
           | Inr w' \<Rightarrow>
               since w w' = [Dumped [cmd ''d''] [], Notified [] []] \<and>
               concat (delivered 0 (trace w')) = [cmd ''a'', cmd ''b'', cmd ''c''] \<and>
               concat (delivered 1 (trace w')) = [cmd ''a'', cmd ''b'', cmd ''c'']))"
  by (simp add: engine_defs session_defs)

end
